theory Spec2Isabelle
  imports Complex_Main "HOL-Library.Sublist" "HOL-Library.Multiset"
begin

section \<open>Exceptions\<close>

text \<open>
  The values of this type stand for the instances of Python's \<^verbatim>\<open>Exception\<close> class that
  the program raises or receives: \<^verbatim>\<open>arcpy.ExecuteError\<close> (raised by a geoprocessing tool)
  and the built-in exceptions of the statements the source uses. Each carries the text that
  \<^verbatim>\<open>str(e)\<close> gives.
\<close>

datatype exn =
    ExecuteError string
  | AssertionError string
  | FileNotFoundError string
  | ValueError string
  | IndexError string
  | StopIteration

fun str_exn :: "exn \<Rightarrow> string" where
  "str_exn (ExecuteError m) = m"
| "str_exn (AssertionError m) = m"
| "str_exn (FileNotFoundError m) = m"
| "str_exn (ValueError m) = m"
| "str_exn (IndexError m) = m"
| "str_exn StopIteration = []"

text \<open>
  A text between single quotes, as the f-strings of the source write it
  (\<^verbatim>\<open>f"'{facility_type}'"\<close>).
\<close>

definition quoted :: "string \<Rightarrow> string" where
  "quoted s = [CHR 0x27] @ s @ [CHR 0x27]"

text \<open>
  \<^verbatim>\<open>repr(s)\<close> of a string, which the messages of \<^verbatim>\<open>float\<close> and of the operating system
  quote: between double quotes when the text holds a single quote and no double quote,
  between single quotes otherwise; the quote in use and the backslash are escaped, tab,
  newline and carriage return are written \<^verbatim>\<open>\t\<close>, \<^verbatim>\<open>\n\<close>, \<^verbatim>\<open>\r\<close>, and the other control
  characters \<^verbatim>\<open>\xhh\<close>. A character is a byte here, and the bytes of a character beyond
  ASCII are left as they are, which is what Python does for a printable character.
\<close>

definition hex_digit :: "nat \<Rightarrow> char" where
  "hex_digit d = ''0123456789abcdef'' ! d"

definition repr_char :: "char \<Rightarrow> char \<Rightarrow> string" where
  "repr_char q c =
     (if c = q \<or> c = CHR 0x5C then [CHR 0x5C, c]
      else if c = CHR 0x09 then [CHR 0x5C, CHR ''t'']
      else if c = CHR 0x0A then [CHR 0x5C, CHR ''n'']
      else if c = CHR 0x0D then [CHR 0x5C, CHR ''r'']
      else if (of_char c :: nat) < 32 \<or> (of_char c :: nat) = 127
      then [CHR 0x5C, CHR ''x'', hex_digit ((of_char c :: nat) div 16),
            hex_digit ((of_char c :: nat) mod 16)]
      else [c])"

definition py_repr :: "string \<Rightarrow> string" where
  "py_repr s =
     (let q = (if CHR 0x27 \<in> set s \<and> CHR 0x22 \<notin> set s then CHR 0x22 else CHR 0x27)
      in [q] @ concat (map (repr_char q) s) @ [q])"

text \<open>The text of the \<^verbatim>\<open>FileNotFoundError\<close> that the operating system raises for a path.\<close>

definition no_such_file :: "string \<Rightarrow> string" where
  "no_such_file p = ''[Errno 2] No such file or directory: '' @ py_repr p"

section \<open>core.py: facility records\<close>

text \<open>\<^verbatim>\<open>check_na_or_empty(s, default)\<close>; the only caller passes \<^verbatim>\<open>None\<close> as default.\<close>

definition check_na_or_empty :: "string \<Rightarrow> string option \<Rightarrow> string option" where
  "check_na_or_empty s dflt = (if s = [] \<or> s = ''N.A.'' then dflt else Some s)"

text \<open>
  The dataclass \<^verbatim>\<open>SportFacility\<close>. Python floats are kept opaque: the type \<open>'f\<close> stands for
  \<^verbatim>\<open>float\<close>, and the conversion \<^verbatim>\<open>float(s)\<close> is a parameter \<open>to_float\<close> that answers
  \<open>None\<close> where Python raises \<^verbatim>\<open>ValueError\<close>.
\<close>

record 'f SportFacility =
  gmid :: string
  dataset :: string
  fac_name :: string
  addr :: "string option"
  district :: "string option"
  northing :: 'f
  easting :: 'f
  lat :: 'f
  lon :: 'f

text \<open>\<^verbatim>\<open>csv_row[i]\<close>: an index past the end raises \<^verbatim>\<open>IndexError\<close>.\<close>

definition item :: "'a list \<Rightarrow> nat \<Rightarrow> exn + 'a" where
  "item xs i = (if i < length xs then Inr (xs ! i) else Inl (IndexError ''list index out of range''))"

text \<open>\<^verbatim>\<open>float(s)\<close>; the message of the \<^verbatim>\<open>ValueError\<close> quotes \<^verbatim>\<open>repr(s)\<close>.\<close>

definition float_of :: "(string \<Rightarrow> 'f option) \<Rightarrow> string \<Rightarrow> exn + 'f" where
  "float_of to_float s =
     (case to_float s of
        Some x \<Rightarrow> Inr x
      | None \<Rightarrow> Inl (ValueError (''could not convert string to float: '' @ py_repr s)))"

text \<open>Sequencing of two steps, the first of which may raise.\<close>

definition and_then :: "exn + 'a \<Rightarrow> ('a \<Rightarrow> exn + 'b) \<Rightarrow> exn + 'b" where
  "and_then r k = (case r of Inl e \<Rightarrow> Inl e | Inr v \<Rightarrow> k v)"

text \<open>
  \<^verbatim>\<open>SportFacility.from_csv_row\<close>: the nine arguments of the constructor are evaluated from
  left to right, so the first one that raises decides the exception.
\<close>

definition from_csv_row :: "(string \<Rightarrow> 'f option) \<Rightarrow> string list \<Rightarrow> exn + 'f SportFacility" where
  "from_csv_row to_float csv_row =
     and_then (item csv_row 0) (\<lambda>c0.
     and_then (item csv_row 1) (\<lambda>c1.
     and_then (item csv_row 2) (\<lambda>c2.
     and_then (item csv_row 3) (\<lambda>c3.
     and_then (item csv_row 4) (\<lambda>c4.
     and_then (and_then (item csv_row 5) (float_of to_float)) (\<lambda>c5.
     and_then (and_then (item csv_row 6) (float_of to_float)) (\<lambda>c6.
     and_then (and_then (item csv_row 7) (float_of to_float)) (\<lambda>c7.
     and_then (and_then (item csv_row 8) (float_of to_float)) (\<lambda>c8.
       Inr \<lparr> gmid = c0, dataset = c1, fac_name = c2,
             addr = check_na_or_empty c3 None,
             district = check_na_or_empty c4 None,
             northing = c5, easting = c6, lat = c7, lon = c8 \<rparr>)))))))))"

section \<open>consts.py\<close>

definition FileNames :: "string list" where
  "FileNames =
     [''Badminton_court.csv'', ''Basketball_court.csv'', ''country_parks.csv'',
      ''fitness_center.csv'', ''other_recreation_sports_facilities.csv'',
      ''parks_gardens.csv'', ''sports_grounds.csv'', ''swimming_pools.csv'']"

definition FacilityTypes :: "string list" where
  "FacilityTypes =
     [''Badminton Courts'', ''Basketball Courts'', ''Country Parks'', ''Fitness Rooms'',
      ''Other Recreation & Sports Facilities'', ''Parks, Zoos And Gardens'',
      ''Sports Grounds'', ''Swimming Pools'']"

definition WORKSPACE :: string where
  "WORKSPACE = ''./Waterdragen.gdb''"

section \<open>core.py: reading the CSV files\<close>

text \<open>
  The file system is a parameter \<open>fs\<close>: the rows that \<^verbatim>\<open>csv.reader\<close> yields for a path, or
  \<open>None\<close> when the file cannot be opened. \<^verbatim>\<open>next(csv_reader)\<close> skips the header and raises
  \<^verbatim>\<open>StopIteration\<close> on a file without any row.
\<close>

fun rows_to_facilities :: "(string \<Rightarrow> 'f option) \<Rightarrow> string list list \<Rightarrow> exn + 'f SportFacility list" where
  "rows_to_facilities to_float [] = Inr []"
| "rows_to_facilities to_float (row # rows) =
     and_then (from_csv_row to_float row) (\<lambda>f.
     and_then (rows_to_facilities to_float rows) (\<lambda>fs. Inr (f # fs)))"

definition read_csv :: "(string \<Rightarrow> string list list option) \<Rightarrow> (string \<Rightarrow> 'f option) \<Rightarrow> string
    \<Rightarrow> exn + 'f SportFacility list" where
  "read_csv fs to_float filename =
     (case fs filename of
        None \<Rightarrow> Inl (FileNotFoundError (no_such_file filename))
      | Some [] \<Rightarrow> Inl StopIteration
      | Some (header # rows) \<Rightarrow> rows_to_facilities to_float rows)"

text \<open>
  \<^verbatim>\<open>os.path.join(folder, filename)\<close>, as \<^verbatim>\<open>posixpath\<close> has it: a file name that starts with
  a slash stands alone; otherwise the two are joined, with a slash between them unless the
  folder is empty or ends with one. (\<^verbatim>\<open>ntpath\<close> inserts a backslash instead; the two agree
  for a folder that ends with a slash, as the \<^verbatim>\<open>"./csv_data/"\<close> of the source does.)
\<close>

definition path_join :: "string \<Rightarrow> string \<Rightarrow> string" where
  "path_join folder filename =
     (if filename \<noteq> [] \<and> hd filename = CHR ''/'' then filename
      else if folder = [] \<or> last folder = CHR ''/'' then folder @ filename
      else folder @ ''/'' @ filename)"

fun read_files :: "(string \<Rightarrow> string list list option) \<Rightarrow> (string \<Rightarrow> 'f option) \<Rightarrow> string
    \<Rightarrow> string list \<Rightarrow> exn + 'f SportFacility list" where
  "read_files fs to_float folder [] = Inr []"
| "read_files fs to_float folder (filename # rest) =
     and_then (read_csv fs to_float (path_join folder filename)) (\<lambda>t.
     and_then (read_files fs to_float folder rest) (\<lambda>ts. Inr (t @ ts)))"

text \<open>\<^verbatim>\<open>read_all_csvs(folder)\<close>: the tables of the files, one after the other.\<close>

definition read_all_csvs :: "(string \<Rightarrow> string list list option) \<Rightarrow> (string \<Rightarrow> 'f option) \<Rightarrow> string
    \<Rightarrow> exn + 'f SportFacility list" where
  "read_all_csvs fs to_float folder = read_files fs to_float folder FileNames"

section \<open>core.py: artifact names\<close>

text \<open>\<^verbatim>\<open>s.replace(old, new)\<close> for a one-character \<open>old\<close>, which all three calls have.\<close>

definition replace_chr :: "char \<Rightarrow> string \<Rightarrow> string \<Rightarrow> string" where
  "replace_chr old new s = concat (map (\<lambda>c. if c = old then new else [c]) s)"

definition replace_special_chars :: "string \<Rightarrow> string" where
  "replace_special_chars name =
     replace_chr (CHR '','') [] (replace_chr (CHR ''&'') ''and'' (replace_chr (CHR '' '') ''_'' name))"

text \<open>\<^verbatim>\<open>str(n)\<close> of a non-negative integer: its decimal digits.\<close>

definition digit_chr :: "nat \<Rightarrow> char" where
  "digit_chr d = ''0123456789'' ! d"

fun str_nat :: "nat \<Rightarrow> string" where
  "str_nat n = (if n < 10 then [digit_chr n] else str_nat (n div 10) @ [digit_chr (n mod 10)])"

declare str_nat.simps [simp del]

section \<open>itertools.combinations and enumerate\<close>

text \<open>
  \<^verbatim>\<open>itertools.combinations(iterable, r)\<close> of the Python standard library: the \<open>r\<close>-length
  subsequences of the input, in the order the library emits them (the combinations that
  start with the first element come first, then those that do not contain it).
\<close>

fun combinations :: "'a list \<Rightarrow> nat \<Rightarrow> 'a list list" where
  "combinations xs 0 = [[]]"
| "combinations [] (Suc r) = []"
| "combinations (x # xs) (Suc r) = map ((#) x) (combinations xs r) @ combinations xs (Suc r)"

text \<open>
  The task list of \<^verbatim>\<open>three_or_above_facilities\<close>:
  \<^verbatim>\<open>enumerate(combinations(FacilityTypes, 3))\<close>. The category list and the size of the
  combinations are constants of the source; they are parameters here, and \<open>tasks\<close> is the
  list the source builds.
\<close>

definition scheduled_tasks :: "'a list \<Rightarrow> nat \<Rightarrow> (nat \<times> 'a list) list" where
  "scheduled_tasks types k = enumerate 0 (combinations types k)"

definition tasks :: "(nat \<times> string list) list" where
  "tasks = scheduled_tasks FacilityTypes 3"

text \<open>
  Lexicographic comparison of two lists with respect to a strict order on the elements,
  and the order in which the elements occur in a list.
\<close>

fun lex_less :: "('a \<Rightarrow> 'a \<Rightarrow> bool) \<Rightarrow> 'a list \<Rightarrow> 'a list \<Rightarrow> bool" where
  "lex_less lt [] [] = False"
| "lex_less lt [] (y # ys) = True"
| "lex_less lt (x # xs) [] = False"
| "lex_less lt (x # xs) (y # ys) = (lt x y \<or> (x = y \<and> lex_less lt xs ys))"

fun position :: "'a list \<Rightarrow> 'a \<Rightarrow> nat" where
  "position [] a = 0"
| "position (x # xs) a = (if x = a then 0 else Suc (position xs a))"

definition before :: "'a list \<Rightarrow> 'a \<Rightarrow> 'a \<Rightarrow> bool" where
  "before xs a b = (position xs a < position xs b)"


section \<open>question3.py: the geoprocessing environment\<close>

text \<open>
  The operations on artifacts that the module performs: the \<^verbatim>\<open>arcpy\<close> tools with the
  arguments the source passes, and \<^verbatim>\<open>shutil.rmtree("./shape/")\<close>. A layer returned by
  \<^verbatim>\<open>SelectLayerByAttribute\<close> is the pair of the feature class and the where clause; the
  buffer distance \<^verbatim>\<open>f"{radius} Meters"\<close> is \<open>Meters radius\<close>.
\<close>

type_synonym layer = "string \<times> string"

datatype linear_unit = Meters real

datatype operation =
    CreateFileGDB_management string string
  | Buffer_analysis string string linear_unit
  | SelectLayerByAttribute string string string
  | GetCount_management layer
  | CopyFeatures_management layer string
  | Intersect_analysis "string list" string string
  | Merge "string list" string
  | Clip_analysis string string
  | Dissolve_management string string
  | Delete_management string
  | Rename_management string string
  | MultipartToSinglepart_management string string
  | Rmtree_shape

text \<open>
  \<^verbatim>\<open>arcpy\<close> and the file system are not part of the repository; they are the parameter \<open>env\<close>:
  \<^item> \<open>raises env op = Some m\<close>: the tool call \<open>op\<close> raises \<^verbatim>\<open>arcpy.ExecuteError\<close> with the
    message \<open>m\<close>; \<open>None\<close>: it returns;
  \<^item> \<open>feature_count env l\<close>: the number \<^verbatim>\<open>GetCount\<close> reports for the layer \<open>l\<close>;
  \<^item> \<open>GetMessages env t\<close>: what \<^verbatim>\<open>arcpy.GetMessages()\<close> returns after the operations \<open>t\<close>;
  \<^item> \<open>path_exists env p\<close>: \<^verbatim>\<open>os.path.exists(p)\<close> for the CSV folder;
  \<^item> \<open>csv_rows env p\<close>: the rows of the CSV file \<open>p\<close>, \<open>None\<close> when it cannot be opened.
\<close>

record env =
  raises :: "operation \<Rightarrow> string option"
  feature_count :: "layer \<Rightarrow> nat"
  GetMessages :: "operation list \<Rightarrow> string"
  path_exists :: "string \<Rightarrow> bool"
  csv_rows :: "string \<Rightarrow> string list list option"

text \<open>
  The state the module acts on: whether the directory \<^verbatim>\<open>./shape\<close> exists, the datasets and
  files that exist (what \<^verbatim>\<open>arcpy.Exists\<close> answers), the lines printed, and the operations
  attempted so far, oldest first.
\<close>

record world =
  shape_dir :: bool
  files :: "string list"
  stdout :: "string list"
  trace :: "operation list"

text \<open>
  What a tool that returns leaves behind: its output dataset exists afterwards
  (\<^verbatim>\<open>overwriteOutput\<close> is set, so an existing one is replaced). \<^verbatim>\<open>Clip_analysis\<close> is called
  with the input and the clip features only, so it writes nothing under a name of the
  source's.
\<close>

fun outputs :: "operation \<Rightarrow> string list \<Rightarrow> string list" where
  "outputs (CreateFileGDB_management folder name) fs = List.insert name fs"
| "outputs (Buffer_analysis inp out d) fs = List.insert out fs"
| "outputs (SelectLayerByAttribute fc sel wh) fs = fs"
| "outputs (GetCount_management l) fs = fs"
| "outputs (CopyFeatures_management l out) fs = List.insert out fs"
| "outputs (Intersect_analysis ins out join) fs = List.insert out fs"
| "outputs (Merge ins out) fs = List.insert out fs"
| "outputs (Clip_analysis inp clip) fs = fs"
| "outputs (Dissolve_management inp out) fs = List.insert out fs"
| "outputs (Delete_management name) fs = removeAll name fs"
| "outputs (Rename_management old new) fs = List.insert new (removeAll old fs)"
| "outputs (MultipartToSinglepart_management inp out) fs = List.insert out fs"
| "outputs Rmtree_shape fs = filter (\<lambda>f. \<not> prefix ''./shape/'' f) fs"

text \<open>
  The failure of an operation in a world: \<^verbatim>\<open>shutil.rmtree\<close> raises when the directory is
  absent; a tool raises when the environment says so.
\<close>

definition failure :: "env \<Rightarrow> operation \<Rightarrow> world \<Rightarrow> exn option" where
  "failure env op w =
     (if op = Rmtree_shape
      then (if shape_dir w then None else Some (FileNotFoundError (no_such_file ''./shape/'')))
      else map_option ExecuteError (raises env op))"

definition perform :: "env \<Rightarrow> operation \<Rightarrow> world \<Rightarrow> (exn + unit) \<times> world" where
  "perform env op w =
     (let w' = w\<lparr>trace := trace w @ [op]\<rparr> in
      case failure env op w of
        Some e \<Rightarrow> (Inl e, w')
      | None \<Rightarrow> (Inr (), w'\<lparr>files := outputs op (files w),
                          shape_dir := (shape_dir w \<and> op \<noteq> Rmtree_shape)\<rparr>))"

definition print_line :: "string \<Rightarrow> world \<Rightarrow> world" where
  "print_line s w = w\<lparr>stdout := stdout w @ [s]\<rparr>"

text \<open>A straight-line block of statements: each is an operation or a \<^verbatim>\<open>print\<close>.\<close>

datatype step = Do operation | Print string

fun run :: "env \<Rightarrow> step list \<Rightarrow> world \<Rightarrow> (exn + unit) \<times> world" where
  "run env [] w = (Inr (), w)"
| "run env (Print s # steps) w = run env steps (print_line s w)"
| "run env (Do op # steps) w =
     (case perform env op w of
        (Inl e, w') \<Rightarrow> (Inl e, w')
      | (Inr u, w') \<Rightarrow> run env steps w')"

section \<open>core.py: exception_handler\<close>

text \<open>
  The decorator. \<open>name\<close> is \<^verbatim>\<open>f.__name__\<close>. The wrapped function runs first; when it raises,
  one line is printed (the first \<^verbatim>\<open>except\<close> clause for \<^verbatim>\<open>arcpy.ExecuteError\<close>, the second
  for every other exception) and the exception is raised again.
\<close>

fun handler_line :: "env \<Rightarrow> string \<Rightarrow> exn \<Rightarrow> world \<Rightarrow> string" where
  "handler_line env name (ExecuteError m) w =
     ''Error while running '' @ name @ ''(): '' @ GetMessages env (trace w)"
| "handler_line env name e w =
     ''Unexpected error while running '' @ name @ '': '' @ str_exn e"

definition exception_handler :: "env \<Rightarrow> string \<Rightarrow> ('a \<Rightarrow> world \<Rightarrow> (exn + 'b) \<times> world)
    \<Rightarrow> 'a \<Rightarrow> world \<Rightarrow> (exn + 'b) \<times> world" where
  "exception_handler env name f args w =
     (case f args w of
        (Inr v, w') \<Rightarrow> (Inr v, w')
      | (Inl e, w') \<Rightarrow> (Inl e, print_line (handler_line env name e w') w'))"

section \<open>question3.py\<close>

text \<open>Module initialisation: the geodatabase is created (a failure is passed over) and
  the directory \<^verbatim>\<open>./shape\<close> is made when it does not exist.\<close>

definition module_init :: "env \<Rightarrow> world \<Rightarrow> world" where
  "module_init env w =
     (let w1 = snd (perform env (CreateFileGDB_management ''./'' WORKSPACE) w)
      in if \<not> shape_dir w1 then w1\<lparr>shape_dir := True\<rparr> else w1)"

text \<open>\<^verbatim>\<open>make_fac_type_layer(feature_class, facility_type)\<close>.\<close>

definition make_fac_type_layer :: "env \<Rightarrow> string \<Rightarrow> string \<Rightarrow> step list" where
  "make_fac_type_layer env feature_class facility_type =
     (let fac_type_name = replace_special_chars facility_type @ ''_Layer'';
          fac_type_layer = (feature_class, ''Facility_Type = '' @ quoted facility_type);
          count = feature_count env fac_type_layer
      in [Do (SelectLayerByAttribute feature_class ''NEW_SELECTION'' (snd fac_type_layer)),
          Do (GetCount_management fac_type_layer),
          Print (''Selected '' @ str_nat count @ '' features for Facility_Type = ''
                 @ quoted facility_type),
          Print (''Created layer '' @ fac_type_name),
          Do (CopyFeatures_management fac_type_layer (''./shape/'' @ fac_type_name @ ''.shp''))])"

text \<open>\<^verbatim>\<open>process_combination(index, fac_type_comb)\<close>: the loop that asserts that every layer
  file exists, then the intersection inside \<^verbatim>\<open>try\<close>.\<close>

definition layer_file :: "string \<Rightarrow> string" where
  "layer_file fac_type = ''./shape/'' @ replace_special_chars fac_type @ ''_Layer.shp''"

definition out_name :: "nat \<Rightarrow> string" where
  "out_name index = ''./shape/FeatureCombination_'' @ str_nat index @ ''.shp''"

fun fac_type_layers :: "world \<Rightarrow> string list \<Rightarrow> exn + string list" where
  "fac_type_layers w [] = Inr []"
| "fac_type_layers w (fac_type # rest) =
     (let fac_type_name = layer_file fac_type in
      if fac_type_name \<in> set (files w)
      then and_then (fac_type_layers w rest) (\<lambda>ls. Inr (fac_type_name # ls))
      else Inl (AssertionError fac_type_name))"

definition process_combination :: "env \<Rightarrow> nat \<Rightarrow> string list \<Rightarrow> world \<Rightarrow> (exn + string) \<times> world" where
  "process_combination env index fac_type_comb w =
     (case fac_type_layers w fac_type_comb of
        Inl e \<Rightarrow> (Inl e, w)
      | Inr ls \<Rightarrow>
          (case perform env (Intersect_analysis ls (out_name index) ''ONLY_FID'') w of
             (Inl e, w') \<Rightarrow>
               (Inr (out_name index),
                print_line (''Warning: '' @ out_name index @ '' is ignored'')
                  (print_line (str_exn e) w'))
           | (Inr u, w') \<Rightarrow> (Inr (out_name index), w')))"

text \<open>
  The process pool. Every task is submitted with \<^verbatim>\<open>apply_async\<close>; the workers finish in an
  order the program does not control, given by the finishing time \<open>finish i\<close> of the task
  submitted \<open>i\<close>-th. The tasks take effect on the world in that order, each as a whole:
  this leaves out that the workers run at the same time, so that the two lines one worker
  prints may be parted by the lines of another in the real output. No theorem of a claim
  below depends on where among the printed lines those of a worker stand.

  \<^verbatim>\<open>[res.get() for res in results]\<close> reads the results in the order of submission and waits
  for each: after some tasks have finished, it has read the results of the longest initial
  run of tasks that have all finished (\<open>gotten\<close>), up to the first exception among them,
  which it raises. That leaves the \<^verbatim>\<open>with mp.Pool()\<close> block, which terminates the pool: the
  tasks that have not finished by then are abandoned and take no effect.
\<close>

definition completion_order :: "(nat \<Rightarrow> nat) \<Rightarrow> nat \<Rightarrow> nat list" where
  "completion_order finish n = sort_key finish [0..<n]"

fun get_all :: "(exn + 'a) list \<Rightarrow> exn + 'a list" where
  "get_all [] = Inr []"
| "get_all (r # rs) = and_then r (\<lambda>v. and_then (get_all rs) (\<lambda>vs. Inr (v # vs)))"

definition gotten :: "(nat \<rightharpoonup> exn + 'a) \<Rightarrow> nat \<Rightarrow> (exn + 'a) list" where
  "gotten res n = List.map_filter res (takeWhile (\<lambda>i. res i \<noteq> None) [0..<n])"

fun run_workers :: "env \<Rightarrow> (nat \<times> string list) list \<Rightarrow> nat list \<Rightarrow> (nat \<rightharpoonup> exn + string)
    \<Rightarrow> world \<Rightarrow> (nat \<rightharpoonup> exn + string) \<times> world" where
  "run_workers env ts [] res w = (res, w)"
| "run_workers env ts (i # rest) res w =
     (case process_combination env (fst (ts ! i)) (snd (ts ! i)) w of
        (r, w1) \<Rightarrow>
          (let res1 = res(i \<mapsto> r) in
           if isl (get_all (gotten res1 (length ts))) then (res1, w1)
           else run_workers env ts rest res1 w1))"

definition pool :: "env \<Rightarrow> (nat \<Rightarrow> nat) \<Rightarrow> (nat \<times> string list) list \<Rightarrow> world
    \<Rightarrow> (exn + string list) \<times> world" where
  "pool env finish ts w =
     (case run_workers env ts (completion_order finish (length ts)) Map.empty w of
        (res, w') \<Rightarrow> (get_all (gotten res (length ts)), w'))"

text \<open>
  \<^verbatim>\<open>three_or_above_facilities(radius, facilities_list)\<close> in its three parts: the buffer and
  the category layers, the pool, and the statements from \<^verbatim>\<open>Merge\<close> on. The first and the
  last take the category list and the list of results as arguments.
\<close>

definition buffer_stage :: "env \<Rightarrow> real \<Rightarrow> string \<Rightarrow> string list \<Rightarrow> step list" where
  "buffer_stage env radius facilities_list types =
     Do (Buffer_analysis facilities_list ''facilities_buffer'' (Meters radius))
     # concat (map (make_fac_type_layer env ''facilities_buffer'') types)"

definition coverage_aggregate :: "string list \<Rightarrow> step list" where
  "coverage_aggregate fac_intersect_list =
     (let three_type_fac_intersect = ''ThreeTypeIntersect'';
          hk_shape = ''./Hong_Kong_18_Districts/HKDistrict18.shp'';
          temp_name = three_type_fac_intersect @ ''_temp''
      in [Do (Merge fac_intersect_list three_type_fac_intersect),
          Do (Clip_analysis three_type_fac_intersect hk_shape),
          Do Rmtree_shape,
          Do (Dissolve_management three_type_fac_intersect temp_name),
          Do (Delete_management three_type_fac_intersect),
          Do (Rename_management temp_name three_type_fac_intersect),
          Do (MultipartToSinglepart_management three_type_fac_intersect temp_name),
          Do (Delete_management three_type_fac_intersect),
          Do (Rename_management temp_name three_type_fac_intersect),
          Print (''Successfully saved to '' @ three_type_fac_intersect)])"

definition pipeline :: "env \<Rightarrow> (nat \<Rightarrow> nat) \<Rightarrow> string list \<Rightarrow> (nat \<times> string list) list
    \<Rightarrow> real \<times> string \<Rightarrow> world \<Rightarrow> (exn + unit) \<times> world" where
  "pipeline env finish types ts args w =
     (case run env (buffer_stage env (fst args) (snd args) types) w of
        (Inl e, w1) \<Rightarrow> (Inl e, w1)
      | (Inr u, w1) \<Rightarrow>
          (case pool env finish ts w1 of
             (Inl e, w2) \<Rightarrow> (Inl e, w2)
           | (Inr fac_intersect_list, w2) \<Rightarrow> run env (coverage_aggregate fac_intersect_list) w2))"

definition three_or_above_facilities :: "env \<Rightarrow> (nat \<Rightarrow> nat) \<Rightarrow> real \<Rightarrow> string \<Rightarrow> world
    \<Rightarrow> (exn + unit) \<times> world" where
  "three_or_above_facilities env finish radius facilities_list =
     exception_handler env ''three_or_above_facilities'' (pipeline env finish FacilityTypes tasks)
       (radius, facilities_list)"

text \<open>\<^verbatim>\<open>main()\<close>, decorated as well.\<close>

definition main_body :: "env \<Rightarrow> (nat \<Rightarrow> nat) \<Rightarrow> (string \<Rightarrow> 'f option) \<Rightarrow> unit \<Rightarrow> world
    \<Rightarrow> (exn + unit) \<times> world" where
  "main_body env finish to_float u w =
     (let csv_folder = ''./csv_data/'' in
      if \<not> path_exists env csv_folder
      then (Inl (FileNotFoundError (''CSV folder '' @ quoted csv_folder @ '' not found.'')), w)
      else (case read_all_csvs (csv_rows env) to_float csv_folder of
              Inl e \<Rightarrow> (Inl e, w)
            | Inr sports_data \<Rightarrow>
                if sports_data = []
                then (Inl (ValueError ''No facility data loaded from CSV files.''), w)
                else three_or_above_facilities env finish 500 ''facilities_list'' w))"

definition main :: "env \<Rightarrow> (nat \<Rightarrow> nat) \<Rightarrow> (string \<Rightarrow> 'f option) \<Rightarrow> world \<Rightarrow> (exn + unit) \<times> world" where
  "main env finish to_float = exception_handler env ''main'' (main_body env finish to_float) ()"

section \<open>Notions used in the statements\<close>

text \<open>The operations of a block of statements, in order.\<close>

fun operations_of :: "step list \<Rightarrow> operation list" where
  "operations_of [] = []"
| "operations_of (Do op # steps) = op # operations_of steps"
| "operations_of (Print s # steps) = operations_of steps"

text \<open>
  For a task (its number and its combination): whether all its layer files exist, the
  intersection its worker attempts then, and what \<^verbatim>\<open>res.get()\<close> gives for it.
\<close>

definition layers_exist :: "world \<Rightarrow> nat \<times> string list \<Rightarrow> bool" where
  "layers_exist w t = list_all (\<lambda>fac_type. layer_file fac_type \<in> set (files w)) (snd t)"

definition intersect_of :: "nat \<times> string list \<Rightarrow> operation" where
  "intersect_of t = Intersect_analysis (map layer_file (snd t)) (out_name (fst t)) ''ONLY_FID''"

definition task_outcome :: "world \<Rightarrow> nat \<times> string list \<Rightarrow> exn + string" where
  "task_outcome w t =
     (case fac_type_layers w (snd t) of Inl e \<Rightarrow> Inl e | Inr ls \<Rightarrow> Inr (out_name (fst t)))"

text \<open>The lines the worker of a task prints: none unless its intersection raises.\<close>

definition worker_lines :: "env \<Rightarrow> world \<Rightarrow> nat \<times> string list \<Rightarrow> string list" where
  "worker_lines env w t =
     (if layers_exist w t
      then (case raises env (intersect_of t) of
              None \<Rightarrow> []
            | Some m \<Rightarrow> [m, ''Warning: '' @ out_name (fst t) @ '' is ignored''])
      else [])"

text \<open>The operations of the statements from \<^verbatim>\<open>Merge\<close> on, for a list of results.\<close>

definition aggregate_operations :: "string list \<Rightarrow> operation list" where
  "aggregate_operations names =
     [Merge names ''ThreeTypeIntersect'',
      Clip_analysis ''ThreeTypeIntersect'' ''./Hong_Kong_18_Districts/HKDistrict18.shp'',
      Rmtree_shape,
      Dissolve_management ''ThreeTypeIntersect'' ''ThreeTypeIntersect_temp'',
      Delete_management ''ThreeTypeIntersect'',
      Rename_management ''ThreeTypeIntersect_temp'' ''ThreeTypeIntersect'',
      MultipartToSinglepart_management ''ThreeTypeIntersect'' ''ThreeTypeIntersect_temp'',
      Delete_management ''ThreeTypeIntersect'',
      Rename_management ''ThreeTypeIntersect_temp'' ''ThreeTypeIntersect'']"

text \<open>
  Environments and a starting world for concrete runs: every tool returns; the
  intersection of the first combination raises; the copy of the layer of one category
  raises; \<^verbatim>\<open>Merge\<close> raises. The starting world has the directory \<^verbatim>\<open>./shape\<close> and the
  feature class \<^verbatim>\<open>facilities_list\<close>.
\<close>

definition env_with :: "(operation \<Rightarrow> string option) \<Rightarrow> env" where
  "env_with r = \<lparr>raises = r, feature_count = (\<lambda>l. 0), GetMessages = (\<lambda>t. ''ERROR''),
                 path_exists = (\<lambda>p. True), csv_rows = (\<lambda>p. None)\<rparr>"

definition quiet :: "operation \<Rightarrow> string option" where
  "quiet op = None"

definition first_intersect_raises :: "operation \<Rightarrow> string option" where
  "first_intersect_raises op =
     (case op of
        Intersect_analysis ins out join \<Rightarrow> if out = out_name 0 then Some ''ERROR 000953'' else None
      | _ \<Rightarrow> None)"

definition copy_raises :: "string \<Rightarrow> operation \<Rightarrow> string option" where
  "copy_raises fac_type op =
     (case op of
        CopyFeatures_management l out \<Rightarrow> if out = layer_file fac_type then Some ''ERROR 000210'' else None
      | _ \<Rightarrow> None)"


definition start_world :: world where
  "start_world = \<lparr>shape_dir = True, files = [''facilities_list''], stdout = [], trace = []\<rparr>"

section \<open>The combination scheduler\<close>

lemma length_combinations: "length (combinations xs r) = length xs choose r"
  by (induction xs r rule: combinations.induct) auto

lemma set_combinations: "set (combinations xs r) = {c. subseq c xs \<and> length c = r}"
proof (induction xs r rule: combinations.induct)
  case (1 xs)
  then show ?case by auto
next
  case (2 r)
  then show ?case by auto
next
  case (3 x xs r)
  show ?case
  proof (intro set_eqI iffI)
    fix c assume "c \<in> set (combinations (x # xs) (Suc r))"
    then show "c \<in> {c. subseq c (x # xs) \<and> length c = Suc r}"
      using 3 by (auto simp: subseq_Cons')
  next
    fix c assume "c \<in> {c. subseq c (x # xs) \<and> length c = Suc r}"
    then have s: "subseq c (x # xs)" and l: "length c = Suc r" by auto
    from l obtain y c' where c: "c = y # c'" by (cases c) auto
    show "c \<in> set (combinations (x # xs) (Suc r))"
    proof (cases "x = y")
      case True
      with s c have "subseq c' xs" by simp
      with l c True 3 show ?thesis by auto
    next
      case False
      with s c have "subseq c xs" by (simp add: subseq_Cons2_neq)
      with l 3 show ?thesis by auto
    qed
  qed
qed

lemma subseq_distinct_filter:
  "subseq a xs \<Longrightarrow> distinct xs \<Longrightarrow> a = filter (\<lambda>x. x \<in> set a) xs"
proof (induction rule: list_emb.induct)
  case (list_emb_Nil ys)
  then show ?case by simp
next
  case (list_emb_Cons xs ys y)
  then have "y \<notin> set xs" by (auto dest: list_emb_set)
  with list_emb_Cons show ?case by simp
next
  case (list_emb_Cons2 x y xs ys)
  then have "x \<notin> set ys" by simp
  then have "filter (\<lambda>z. z \<in> set (x # xs)) ys = filter (\<lambda>z. z \<in> set xs) ys"
    by (intro filter_cong) auto
  with list_emb_Cons2 show ?case by simp
qed

lemma distinct_combinations: "distinct xs \<Longrightarrow> distinct (combinations xs r)"
proof (induction xs r rule: combinations.induct)
  case (3 x xs r)
  have "\<And>c. c \<in> set (combinations xs (Suc r)) \<Longrightarrow> x \<notin> set c"
    using 3(3) by (auto simp: set_combinations dest: list_emb_set)
  then have "set (map ((#) x) (combinations xs r)) \<inter> set (combinations xs (Suc r)) = {}"
    by fastforce
  with 3 show ?case by (simp add: distinct_map)
qed auto

lemma sorted_wrt_before: "distinct xs \<Longrightarrow> sorted_wrt (before xs) xs"
proof (induction xs)
  case (Cons x xs)
  have "sorted_wrt (before (x # xs)) xs"
  proof (rule sorted_wrt_mono_rel[OF _ Cons.IH])
    show "distinct xs" using Cons.prems by simp
    fix a b assume "a \<in> set xs" "b \<in> set xs" "before xs a b"
    then show "before (x # xs) a b" using Cons.prems by (auto simp: before_def)
  qed
  moreover have "\<forall>y\<in>set xs. before (x # xs) x y"
    using Cons.prems by (auto simp: before_def)
  ultimately show ?case by simp
qed simp

lemma lex_sorted_combinations:
  "sorted_wrt lt xs \<Longrightarrow> sorted_wrt (lex_less lt) (combinations xs r)"
proof (induction xs r rule: combinations.induct)
  case (3 x xs r)
  have "sorted_wrt (lex_less lt) (combinations xs r)" using 3 by simp
  then have a: "sorted_wrt (lex_less lt) (map ((#) x) (combinations xs r))"
    by (auto simp: sorted_wrt_map intro: sorted_wrt_mono_rel)
  have b: "sorted_wrt (lex_less lt) (combinations xs (Suc r))" using 3 by simp
  have c: "lex_less lt (x # c1) c2" if "c2 \<in> set (combinations xs (Suc r))" for c1 c2
  proof -
    have "subseq c2 xs" "length c2 = Suc r"
      using that by (auto simp: set_combinations)
    then obtain y c' where "c2 = y # c'" "y \<in> set xs"
      using list_emb_set[of "(=)" c2 xs] by (cases c2) auto
    then show ?thesis using 3(3) by auto
  qed
  show ?case using a b c by (auto simp: sorted_wrt_append)
qed auto


lemma map_fst_scheduled: "map fst (scheduled_tasks xs k) = [0..<length (combinations xs k)]"
  by (simp add: scheduled_tasks_def)

lemma map_snd_scheduled: "map snd (scheduled_tasks xs k) = combinations xs k"
  by (simp add: scheduled_tasks_def)

lemma combination_sets_distinct:
  assumes "distinct xs"
  shows "distinct (map set (combinations xs k))"
proof -
  have "inj_on set (set (combinations xs k))"
  proof (rule inj_onI)
    fix a b assume "a \<in> set (combinations xs k)" "b \<in> set (combinations xs k)" "set a = set b"
    then have "subseq a xs" "subseq b xs" and eq: "set a = set b"
      by (auto simp: set_combinations)
    then have "a = filter (\<lambda>x. x \<in> set a) xs" "b = filter (\<lambda>x. x \<in> set b) xs"
      using assms subseq_distinct_filter by blast+
    with eq show "a = b" by metis
  qed
  then show ?thesis using assms by (simp add: distinct_map distinct_combinations)
qed

lemma every_subset_is_a_combination:
  assumes "distinct xs" "S \<subseteq> set xs" "card S = k"
  shows "\<exists>c\<in>set (combinations xs k). set c = S"
proof -
  let ?c = "filter (\<lambda>x. x \<in> S) xs"
  have "set ?c = S" using assms(2) by auto
  moreover have "distinct ?c" using assms(1) by simp
  then have "length ?c = card (set ?c)" by (rule distinct_card[symmetric])
  then have "length ?c = k" using \<open>set ?c = S\<close> assms(3) by simp
  moreover have "subseq ?c xs" by simp
  ultimately have "?c \<in> set (combinations xs k) \<and> set ?c = S"
    unfolding set_combinations by blast
  then show ?thesis by blast
qed

text \<open>
  Claim C1. For a list of pairwise distinct categories and every size \<open>k\<close>, the scheduler's
  task list has exactly \<open>length cats choose k\<close> entries; the task numbers are the positions
  \<open>0, 1, 2, ...\<close> in the enumeration; every task is a \<open>k\<close>-element subset of the categories,
  listed in the order of the input; no two tasks are the same subset; every \<open>k\<close>-element
  subset of the categories is a task; and the tasks come in lexicographic order with
  respect to the order of the input. The source calls the scheduler with the eight
  \<open>FacilityTypes\<close> and \<open>k = 3\<close>.
\<close>

theorem scheduler_enumerates_k_subsets:
  assumes "distinct cats"
  shows "length (scheduled_tasks cats k) = (length cats choose k)
    \<and> map fst (scheduled_tasks cats k) = [0..<length cats choose k]
    \<and> (\<forall>c\<in>set (map snd (scheduled_tasks cats k)).
          subseq c cats \<and> distinct c \<and> length c = k \<and> set c \<subseteq> set cats \<and> card (set c) = k)
    \<and> distinct (map (set \<circ> snd) (scheduled_tasks cats k))
    \<and> (\<forall>S. S \<subseteq> set cats \<and> card S = k
          \<longrightarrow> (\<exists>c\<in>set (map snd (scheduled_tasks cats k)). set c = S))
    \<and> sorted_wrt (lex_less (before cats)) (map snd (scheduled_tasks cats k))"
proof -
  have 1: "length (scheduled_tasks cats k) = (length cats choose k)"
    by (simp add: scheduled_tasks_def length_combinations)
  have 2: "map fst (scheduled_tasks cats k) = [0..<length cats choose k]"
    by (simp add: map_fst_scheduled length_combinations)
  have 3: "subseq c cats \<and> distinct c \<and> length c = k \<and> set c \<subseteq> set cats \<and> card (set c) = k"
    if "c \<in> set (map snd (scheduled_tasks cats k))" for c
  proof -
    from that have s: "subseq c cats" and l: "length c = k"
      by (auto simp: map_snd_scheduled set_combinations)
    from s assms have "c = filter (\<lambda>x. x \<in> set c) cats" by (rule subseq_distinct_filter)
    then have d: "distinct c" using assms by (metis distinct_filter)
    from s have "set c \<subseteq> set cats" by (auto dest: list_emb_set)
    with s l d show ?thesis by (simp add: distinct_card)
  qed
  have 4: "distinct (map (set \<circ> snd) (scheduled_tasks cats k))"
    using combination_sets_distinct[OF assms, of k]
    unfolding map_snd_scheduled[symmetric] map_map .
  have 5: "\<exists>c\<in>set (map snd (scheduled_tasks cats k)). set c = S"
    if "S \<subseteq> set cats \<and> card S = k" for S
    using that every_subset_is_a_combination[OF assms, of S k]
    by (simp only: map_snd_scheduled)
  have 6: "sorted_wrt (lex_less (before cats)) (map snd (scheduled_tasks cats k))"
    by (simp only: map_snd_scheduled lex_sorted_combinations[OF sorted_wrt_before[OF assms]])
  from 1 2 3 4 5 6 show ?thesis by blast
qed

lemma distinct_FacilityTypes: "distinct FacilityTypes"
  by (simp add: FacilityTypes_def)

theorem scheduler_enumerates_k_subsets_witness:
  "distinct FacilityTypes
   \<and> length (scheduled_tasks FacilityTypes 3) = 56
   \<and> map fst (scheduled_tasks FacilityTypes 3) = [0..<56]
   \<and> sorted_wrt (lex_less (before FacilityTypes)) (map snd (scheduled_tasks FacilityTypes 3))"
proof -
  have "length FacilityTypes choose 3 = 56"
    by (simp add: FacilityTypes_def eval_nat_numeral binomial_Suc_Suc)
  then show ?thesis
    using scheduler_enumerates_k_subsets[OF distinct_FacilityTypes, of 3] distinct_FacilityTypes
    by simp
qed

lemma spec_example:
  "map snd (scheduled_tasks [''A'', ''B'', ''C'', ''D''] 3) =
     [[''A'', ''B'', ''C''], [''A'', ''B'', ''D''], [''A'', ''C'', ''D''], [''B'', ''C'', ''D'']]"
  by (simp add: scheduled_tasks_def eval_nat_numeral)

section \<open>Artifact names\<close>

lemma digit_chr_inj: "a < 10 \<Longrightarrow> b < 10 \<Longrightarrow> digit_chr a = digit_chr b \<Longrightarrow> a = b"
  unfolding digit_chr_def
  by (subst (asm) nth_eq_iff_index_eq) simp_all

lemma digit_chr_in: "d < 10 \<Longrightarrow> digit_chr d \<in> set ''0123456789''"
  unfolding digit_chr_def by (rule nth_mem) simp

lemma str_nat_snoc: "\<exists>ds d. d < 10 \<and> str_nat n = ds @ [digit_chr d]"
proof (cases "n < 10")
  case True
  then have "n < 10 \<and> str_nat n = [] @ [digit_chr n]" by (simp add: str_nat.simps[of n])
  then show ?thesis by blast
next
  case False
  then have "n mod 10 < 10 \<and> str_nat n = str_nat (n div 10) @ [digit_chr (n mod 10)]"
    by (simp add: str_nat.simps[of n])
  then show ?thesis by blast
qed

lemma str_nat_not_Nil: "str_nat n \<noteq> []"
  using str_nat_snoc[of n] by auto

lemma length_str_nat: "length (str_nat n) = Suc 0 \<longleftrightarrow> n < 10"
  by (subst str_nat.simps) (auto simp: str_nat_not_Nil)

lemma str_nat_inj: "str_nat n = str_nat m \<Longrightarrow> n = m"
proof (induction n arbitrary: m rule: str_nat.induct)
  case (1 n)
  show ?case
  proof (cases "n < 10")
    case True
    then have "length (str_nat m) = Suc 0" using "1.prems" length_str_nat[of n] by simp
    then have m: "m < 10" by (simp add: length_str_nat)
    from True m "1.prems" have "digit_chr n = digit_chr m"
      by (simp add: str_nat.simps[of n] str_nat.simps[of m])
    with True m show ?thesis by (rule digit_chr_inj)
  next
    case False
    then have "length (str_nat m) \<noteq> Suc 0" using "1.prems" length_str_nat[of n] by simp
    then have m: "\<not> m < 10" by (simp add: length_str_nat)
    from False m "1.prems"
    have "str_nat (n div 10) @ [digit_chr (n mod 10)] = str_nat (m div 10) @ [digit_chr (m mod 10)]"
      by (simp add: str_nat.simps[of n] str_nat.simps[of m])
    then have a: "str_nat (n div 10) = str_nat (m div 10)"
      and b: "digit_chr (n mod 10) = digit_chr (m mod 10)" by simp_all
    from "1.IH"[OF False a] have "n div 10 = m div 10" .
    moreover from b have "n mod 10 = m mod 10" by (intro digit_chr_inj) simp_all
    ultimately show ?thesis by (metis div_mult_mod_eq)
  qed
qed

lemma out_name_inj: "out_name i = out_name j \<longleftrightarrow> i = j"
  by (auto simp: out_name_def dest: str_nat_inj)

lemma layer_file_neq_out_name: "layer_file t \<noteq> out_name i"
proof
  assume eq: "layer_file t = out_name i"
  obtain ds d where d: "d < 10" and s: "str_nat i = ds @ [digit_chr d]"
    using str_nat_snoc[of i] by blast
  have "(replace_special_chars t @ ''_Laye'') @ [CHR ''r''] = (''FeatureCombination_'' @ ds) @ [digit_chr d]"
    using eq unfolding layer_file_def out_name_def s by simp
  then have "CHR ''r'' = digit_chr d" by (simp only: append1_eq_conv)
  then show False using digit_chr_in[OF d] by auto
qed

lemma layer_name_agrees:
  "''./shape/'' @ (replace_special_chars t @ ''_Layer'') @ ''.shp'' = layer_file t"
  by (simp add: layer_file_def)

lemma distinct_layer_files: "distinct (map layer_file FacilityTypes)"
  by (simp add: FacilityTypes_def layer_file_def replace_special_chars_def replace_chr_def)

text \<open>
  Claim C8. Two different task numbers give two different output names of the workers;
  the sanitized layer names of the configured categories are pairwise distinct, and so are
  the layer files; and no layer file has the name of a worker's output.
\<close>

theorem artifact_names_distinct:
  "(i \<noteq> j \<longrightarrow> out_name i \<noteq> out_name j)
   \<and> distinct (map (\<lambda>t. replace_special_chars t @ ''_Layer'') FacilityTypes)
   \<and> distinct (map layer_file FacilityTypes)
   \<and> layer_file t \<noteq> out_name i"
proof -
  have "distinct (map (\<lambda>t. replace_special_chars t @ ''_Layer'') FacilityTypes)"
    by (simp add: FacilityTypes_def replace_special_chars_def replace_chr_def)
  then show ?thesis
    using out_name_inj[of i j] distinct_layer_files layer_file_neq_out_name[of t i] by simp
qed

theorem artifact_names_distinct_witness:
  "out_name 3 \<noteq> out_name 13
   \<and> out_name 13 = ''./shape/FeatureCombination_13.shp''
   \<and> layer_file ''Parks, Zoos And Gardens'' = ''./shape/Parks_Zoos_And_Gardens_Layer.shp''
   \<and> layer_file ''Other Recreation & Sports Facilities''
       = ''./shape/Other_Recreation_and_Sports_Facilities_Layer.shp''"
proof -
  have "out_name 13 = ''./shape/FeatureCombination_13.shp''"
    by (simp add: out_name_def str_nat.simps digit_chr_def)
  moreover have "layer_file ''Parks, Zoos And Gardens'' = ''./shape/Parks_Zoos_And_Gardens_Layer.shp''"
    by (simp add: layer_file_def replace_special_chars_def replace_chr_def)
  moreover have "layer_file ''Other Recreation & Sports Facilities''
       = ''./shape/Other_Recreation_and_Sports_Facilities_Layer.shp''"
    by (simp add: layer_file_def replace_special_chars_def replace_chr_def)
  ultimately show ?thesis using artifact_names_distinct[of 3 13] by simp
qed


section \<open>Facility records and the exception handler\<close>

lemma and_then_Inr: "and_then r k = Inr b \<longleftrightarrow> (\<exists>a. r = Inr a \<and> k a = Inr b)"
  by (cases r) (simp_all add: and_then_def)

lemma item_Inr: "item xs i = Inr x \<longleftrightarrow> i < length xs \<and> x = xs ! i"
  by (auto simp: item_def)

lemma float_of_Inr: "float_of tf s = Inr x \<longleftrightarrow> tf s = Some x"
  by (simp add: float_of_def split: option.splits)

lemma from_csv_row_Inr:
  "from_csv_row tf row = Inr r \<longleftrightarrow>
     8 < length row \<and>
     (\<exists>n e la lo. tf (row ! 5) = Some n \<and> tf (row ! 6) = Some e
        \<and> tf (row ! 7) = Some la \<and> tf (row ! 8) = Some lo
        \<and> r = \<lparr> gmid = row ! 0, dataset = row ! 1, fac_name = row ! 2,
                 addr = check_na_or_empty (row ! 3) None,
                 district = check_na_or_empty (row ! 4) None,
                 northing = n, easting = e, lat = la, lon = lo \<rparr>)"
  unfolding from_csv_row_def and_then_Inr item_Inr float_of_Inr
  by auto

text \<open>
  Claim C10. The record built from a CSV row keeps the first three columns as identifier,
  category and name; its address is \<open>None\<close> exactly when the fourth column is empty or
  \<^verbatim>\<open>N.A.\<close> and is the column's text otherwise, and likewise the district with the fifth
  column; northing, easting, latitude and longitude are the floats read from columns six to
  nine, in this order. A record is built for every row of at least nine columns whose
  columns six to nine convert to floats.
\<close>

theorem from_csv_row_fields:
  "(from_csv_row to_float row = Inr r \<longrightarrow>
      gmid r = row ! 0 \<and> dataset r = row ! 1 \<and> fac_name r = row ! 2
      \<and> (addr r = None \<longleftrightarrow> row ! 3 = [] \<or> row ! 3 = ''N.A.'')
      \<and> (addr r \<noteq> None \<longrightarrow> addr r = Some (row ! 3))
      \<and> (district r = None \<longleftrightarrow> row ! 4 = [] \<or> row ! 4 = ''N.A.'')
      \<and> (district r \<noteq> None \<longrightarrow> district r = Some (row ! 4))
      \<and> to_float (row ! 5) = Some (northing r) \<and> to_float (row ! 6) = Some (easting r)
      \<and> to_float (row ! 7) = Some (lat r) \<and> to_float (row ! 8) = Some (lon r))
   \<and> (9 \<le> length row \<and> to_float (row ! 5) \<noteq> None \<and> to_float (row ! 6) \<noteq> None
        \<and> to_float (row ! 7) \<noteq> None \<and> to_float (row ! 8) \<noteq> None
      \<longrightarrow> (\<exists>r'. from_csv_row to_float row = Inr r'))"
proof (intro conjI impI)
  assume "9 \<le> length row \<and> to_float (row ! 5) \<noteq> None \<and> to_float (row ! 6) \<noteq> None
        \<and> to_float (row ! 7) \<noteq> None \<and> to_float (row ! 8) \<noteq> None"
  then show "\<exists>r'. from_csv_row to_float row = Inr r'"
    unfolding from_csv_row_Inr by auto
qed (auto simp: from_csv_row_Inr check_na_or_empty_def split: if_splits)

theorem from_csv_row_fields_witness:
  "from_csv_row Some [''7'', ''Swimming Pools'', ''Kowloon Park'', ''N.A.'', ''Yau Tsim Mong'',
      ''818532.0'', ''835690.0'', ''22.3'', ''114.17'', ''extra'']
   = Inr \<lparr> gmid = ''7'', dataset = ''Swimming Pools'', fac_name = ''Kowloon Park'',
           addr = None, district = Some ''Yau Tsim Mong'', northing = ''818532.0'',
           easting = ''835690.0'', lat = ''22.3'', lon = ''114.17'' \<rparr>"
proof -
  let ?row = "[''7'', ''Swimming Pools'', ''Kowloon Park'', ''N.A.'', ''Yau Tsim Mong'',
      ''818532.0'', ''835690.0'', ''22.3'', ''114.17'', ''extra'']"
  obtain r where r: "from_csv_row Some ?row = Inr r"
    using from_csv_row_fields[of Some ?row undefined] by auto
  have "r = \<lparr> gmid = ''7'', dataset = ''Swimming Pools'', fac_name = ''Kowloon Park'',
           addr = None, district = Some ''Yau Tsim Mong'', northing = ''818532.0'',
           easting = ''835690.0'', lat = ''22.3'', lon = ''114.17'' \<rparr>"
    using from_csv_row_fields[of Some ?row r] r by (cases r) auto
  with r show ?thesis by simp
qed

lemma from_csv_row_short: "from_csv_row tf [''1'', ''a''] = Inl (IndexError ''list index out of range'')"
  by (simp add: from_csv_row_def and_then_def item_def)

text \<open>
  Claim C9. The wrapped function returns what the function returns: the same value, with
  nothing printed, or the same exception, raised again after exactly one line is printed.
  An exception is never replaced by a value or by another exception.
\<close>

theorem exception_handler_transparent:
  "fst (exception_handler env name f args w) = fst (f args w)
   \<and> (\<forall>v. fst (f args w) = Inr v \<longrightarrow> exception_handler env name f args w = f args w)
   \<and> (\<forall>e. fst (f args w) = Inl e \<longrightarrow>
        exception_handler env name f args w
          = (Inl e, (snd (f args w))\<lparr>stdout := stdout (snd (f args w))
                @ [handler_line env name e (snd (f args w))]\<rparr>))"
  by (cases "f args w"; cases "fst (f args w)")
     (auto simp: exception_handler_def print_line_def)

theorem exception_handler_transparent_witness:
  "exception_handler \<lparr>raises = (\<lambda>op. None), feature_count = (\<lambda>l. 0), GetMessages = (\<lambda>t. ''ERROR 000732''),
        path_exists = (\<lambda>p. True), csv_rows = (\<lambda>p. None)\<rparr> ''main''
      (\<lambda>(a :: nat) w. if a = 0 then (Inl (ValueError ''No facility data''), w) else (Inr a, w)) 0
      \<lparr>shape_dir = True, files = [], stdout = [], trace = []\<rparr>
    = (Inl (ValueError ''No facility data''),
       \<lparr>shape_dir = True, files = [], stdout = [''Unexpected error while running main: No facility data''],
        trace = []\<rparr>)
   \<and> exception_handler \<lparr>raises = (\<lambda>op. None), feature_count = (\<lambda>l. 0), GetMessages = (\<lambda>t. ''ERROR 000732''),
        path_exists = (\<lambda>p. True), csv_rows = (\<lambda>p. None)\<rparr> ''main''
      (\<lambda>(a :: nat) w. if a = 0 then (Inl (ValueError ''No facility data''), w) else (Inr a, w)) 5
      \<lparr>shape_dir = True, files = [], stdout = [], trace = []\<rparr>
    = (Inr 5, \<lparr>shape_dir = True, files = [], stdout = [], trace = []\<rparr>)"
  using exception_handler_transparent[of
      "\<lparr>raises = (\<lambda>op. None), feature_count = (\<lambda>l. 0), GetMessages = (\<lambda>t. ''ERROR 000732''),
        path_exists = (\<lambda>p. True), csv_rows = (\<lambda>p. None)\<rparr>" "''main''"
      "\<lambda>(a :: nat) w. if a = 0 then (Inl (ValueError ''No facility data''), w) else (Inr a, w)" 0
      "\<lparr>shape_dir = True, files = [], stdout = [], trace = []\<rparr>"]
    exception_handler_transparent[of
      "\<lparr>raises = (\<lambda>op. None), feature_count = (\<lambda>l. 0), GetMessages = (\<lambda>t. ''ERROR 000732''),
        path_exists = (\<lambda>p. True), csv_rows = (\<lambda>p. None)\<rparr>" "''main''"
      "\<lambda>(a :: nat) w. if a = 0 then (Inl (ValueError ''No facility data''), w) else (Inr a, w)" 5
      "\<lparr>shape_dir = True, files = [], stdout = [], trace = []\<rparr>"]
  by simp

section \<open>Operations and blocks\<close>



lemma perform_cases:
  obtains (raised) e where "failure env op w = Some e"
      "perform env op w = (Inl e, w\<lparr>trace := trace w @ [op]\<rparr>)"
  | (returned) "failure env op w = None"
      "perform env op w = (Inr (), w\<lparr>trace := trace w @ [op], files := outputs op (files w),
            shape_dir := (shape_dir w \<and> op \<noteq> Rmtree_shape)\<rparr>)"
  by (cases "failure env op w") (auto simp: perform_def Let_def)

lemma failure_tool:
  "op \<noteq> Rmtree_shape \<Longrightarrow> failure env op w = map_option ExecuteError (raises env op)"
  by (simp add: failure_def)

lemma run_append:
  "run env (a @ b) w =
     (case run env a w of (Inl e, w') \<Rightarrow> (Inl e, w') | (Inr u, w') \<Rightarrow> run env b w')"
proof (induction env a w rule: run.induct)
  case (3 env op steps w)
  then show ?case by (cases "perform env op w" rule: prod.exhaust; cases "fst (perform env op w)") auto
qed auto

lemma operations_of_append [simp]:
  "operations_of (a @ b) = operations_of a @ operations_of b"
  by (induction a rule: operations_of.induct) auto

lemma run_Inr_world:
  "run env steps w = (Inr u, w') \<Longrightarrow>
     trace w' = trace w @ operations_of steps
     \<and> files w' = fold outputs (operations_of steps) (files w)
     \<and> shape_dir w' = (shape_dir w \<and> Rmtree_shape \<notin> set (operations_of steps))"
proof (induction env steps w rule: run.induct)
  case (1 env w)
  then show ?case by simp
next
  case (2 env s steps w)
  then show ?case by (simp add: print_line_def)
next
  case (3 env op steps w)
  show ?case
  proof (cases rule: perform_cases[of env op w])
    case (raised e)
    with 3 show ?thesis by simp
  next
    case returned
    with 3 show ?thesis by auto
  qed
qed

lemma run_trace_prefix:
  "run env steps w = (r, w') \<Longrightarrow> \<exists>k. trace w' = trace w @ take k (operations_of steps)"
proof (induction env steps w rule: run.induct)
  case (1 env w)
  then show ?case by simp
next
  case (2 env s steps w)
  then show ?case by (simp add: print_line_def)
next
  case (3 env op steps w)
  show ?case
  proof (cases rule: perform_cases[of env op w])
    case (raised e)
    with 3 have "trace w' = trace w @ take 1 (operations_of (Do op # steps))" by auto
    then show ?thesis by blast
  next
    case returned
    with 3 obtain k where "trace w' = (trace w @ [op]) @ take k (operations_of steps)"
      by fastforce
    then have "trace w' = trace w @ take (Suc k) (operations_of (Do op # steps))" by simp
    then show ?thesis by blast
  qed
qed

text \<open>A block without \<open>rmtree\<close>: its outcome is decided by the first tool that raises.\<close>

lemma run_result_tools:
  "Rmtree_shape \<notin> set (operations_of steps) \<Longrightarrow>
   fst (run env steps w) =
     (case List.find (\<lambda>op. raises env op \<noteq> None) (operations_of steps) of
        None \<Rightarrow> Inr ()
      | Some op \<Rightarrow> Inl (ExecuteError (the (raises env op))))"
proof (induction env steps w rule: run.induct)
  case (1 env w)
  then show ?case by simp
next
  case (2 env s steps w)
  then show ?case by simp
next
  case (3 env op steps w)
  then have op: "op \<noteq> Rmtree_shape" by auto
  show ?case
  proof (cases rule: perform_cases[of env op w])
    case (raised e)
    then show ?thesis using op by (auto simp: failure_tool)
  next
    case returned
    then show ?thesis using op 3 by (auto simp: failure_tool)
  qed
qed



section \<open>The buffer stage\<close>

lemma operations_of_make_fac_type_layer:
  "operations_of (make_fac_type_layer env fc t) =
     [SelectLayerByAttribute fc ''NEW_SELECTION'' (''Facility_Type = '' @ quoted t),
      GetCount_management (fc, ''Facility_Type = '' @ quoted t),
      CopyFeatures_management (fc, ''Facility_Type = '' @ quoted t) (layer_file t)]"
  by (simp add: make_fac_type_layer_def Let_def layer_file_def)

lemma operations_of_layers:
  "operations_of (concat (map (make_fac_type_layer env fc) types)) =
     concat (map (\<lambda>t. operations_of (make_fac_type_layer env fc t)) types)"
  by (induction types) simp_all

lemma operations_of_buffer_stage:
  "operations_of (buffer_stage env radius fl types) =
     Buffer_analysis fl ''facilities_buffer'' (Meters radius)
     # concat (map (\<lambda>t. operations_of (make_fac_type_layer env ''facilities_buffer'' t)) types)"
  by (simp add: buffer_stage_def operations_of_layers)

lemma buffer_stage_no_rmtree:
  "Rmtree_shape \<notin> set (operations_of (buffer_stage env radius fl types))"
  by (auto simp: operations_of_buffer_stage operations_of_make_fac_type_layer)

lemma buffer_stage_no_intersect:
  "Intersect_analysis ins out join \<notin> set (operations_of (buffer_stage env radius fl types))"
  by (auto simp: operations_of_buffer_stage operations_of_make_fac_type_layer)

lemma fold_outputs_layers:
  "set (fold outputs (concat (map (\<lambda>t. operations_of (make_fac_type_layer env fc t)) types)) fs)
     = set fs \<union> layer_file ` set types"
  by (induction types arbitrary: fs) (auto simp: operations_of_make_fac_type_layer)

lemma buffer_stage_Inr:
  assumes "run env (buffer_stage env radius fl types) w = (Inr u, w1)"
  shows "set (files w1) = set (files w) \<union> {''facilities_buffer''} \<union> layer_file ` set types"
    and "shape_dir w1 = shape_dir w"
    and "trace w1 = trace w @ operations_of (buffer_stage env radius fl types)"
proof -
  note r = run_Inr_world[OF assms]
  from r show "trace w1 = trace w @ operations_of (buffer_stage env radius fl types)" by simp
  from r show "shape_dir w1 = shape_dir w" using buffer_stage_no_rmtree by simp
  from r have "files w1 = fold outputs (operations_of (buffer_stage env radius fl types)) (files w)"
    by simp
  then show "set (files w1) = set (files w) \<union> {''facilities_buffer''} \<union> layer_file ` set types"
    by (simp add: operations_of_buffer_stage fold_outputs_layers)
qed

section \<open>The worker\<close>

lemma fac_type_layers_present:
  "list_all (\<lambda>t. layer_file t \<in> set (files w)) c \<Longrightarrow> fac_type_layers w c = Inr (map layer_file c)"
  by (induction c) (simp_all add: Let_def and_then_def)

lemma fac_type_layers_InrD:
  "fac_type_layers w c = Inr ls \<Longrightarrow>
     list_all (\<lambda>t. layer_file t \<in> set (files w)) c \<and> ls = map layer_file c"
  by (induction c arbitrary: ls) (auto simp: Let_def and_then_def split: sum.splits if_splits)

lemma fac_type_layers_Inr:
  "fac_type_layers w c = Inr ls \<longleftrightarrow>
     list_all (\<lambda>t. layer_file t \<in> set (files w)) c \<and> ls = map layer_file c"
  using fac_type_layers_present fac_type_layers_InrD by blast

lemma fac_type_layers_Inl:
  "fac_type_layers w c = Inl e \<Longrightarrow>
     \<exists>t\<in>set c. layer_file t \<notin> set (files w) \<and> e = AssertionError (layer_file t)"
  by (induction c) (auto simp: Let_def and_then_def split: sum.splits if_splits)

lemma fac_type_layers_find:
  "fac_type_layers w c =
     (case List.find (\<lambda>fac_type. layer_file fac_type \<notin> set (files w)) c of
        None \<Rightarrow> Inr (map layer_file c)
      | Some fac_type \<Rightarrow> Inl (AssertionError (layer_file fac_type)))"
  by (induction c) (simp_all add: Let_def and_then_def split: option.splits)

lemma fac_type_layers_cong:
  "\<forall>t. (layer_file t \<in> set (files w)) = (layer_file t \<in> set (files w')) \<Longrightarrow>
   fac_type_layers w c = fac_type_layers w' c"
  by (induction c) (simp_all add: Let_def)

lemma process_combination_missing:
  "\<not> layers_exist w (i, c) \<Longrightarrow>
   process_combination env i c w = (task_outcome w (i, c), w)
   \<and> (\<exists>t\<in>set c. task_outcome w (i, c) = Inl (AssertionError (layer_file t))
               \<and> layer_file t \<notin> set (files w))"
proof -
  assume a: "\<not> layers_exist w (i, c)"
  then obtain e where e: "fac_type_layers w c = Inl e"
    by (cases "fac_type_layers w c") (auto simp: layers_exist_def fac_type_layers_Inr)
  from fac_type_layers_Inl[OF e] e show ?thesis
    by (auto simp: process_combination_def task_outcome_def)
qed

lemma process_combination_present:
  assumes "layers_exist w (i, c)"
  shows "process_combination env i c w =
    (Inr (out_name i),
     case raises env (intersect_of (i, c)) of
       None \<Rightarrow> w\<lparr>trace := trace w @ [intersect_of (i, c)],
                 files := List.insert (out_name i) (files w)\<rparr>
     | Some m \<Rightarrow> w\<lparr>trace := trace w @ [intersect_of (i, c)],
                   stdout := stdout w @ [m, ''Warning: '' @ out_name i @ '' is ignored'']\<rparr>)"
proof -
  from assms have l: "fac_type_layers w c = Inr (map layer_file c)"
    by (simp add: layers_exist_def fac_type_layers_Inr)
  show ?thesis
  proof (cases "raises env (intersect_of (i, c))")
    case None
    then show ?thesis using l
      by (simp add: process_combination_def perform_def failure_def intersect_of_def)
  next
    case (Some m)
    then show ?thesis using l
      by (simp add: process_combination_def perform_def failure_def intersect_of_def print_line_def)
  qed
qed

lemma task_outcome_present: "layers_exist w t \<Longrightarrow> task_outcome w t = Inr (out_name (fst t))"
  by (simp add: task_outcome_def layers_exist_def fac_type_layers_present)

section \<open>The pool\<close>

lemma process_combination_step:
  assumes same: "\<forall>t. (layer_file t \<in> set (files w0)) = (layer_file t \<in> set (files w))"
    and run: "process_combination env i c w = (r, w1)"
  shows "r = task_outcome w0 (i, c)"
    and "\<forall>t. (layer_file t \<in> set (files w0)) = (layer_file t \<in> set (files w1))"
    and "shape_dir w1 = shape_dir w"
    and "set (files w1) = set (files w) \<union>
           (if layers_exist w0 (i, c) \<and> raises env (intersect_of (i, c)) = None
            then {out_name i} else {})"
    and "trace w1 = trace w @ (if layers_exist w0 (i, c) then [intersect_of (i, c)] else [])"
    and "stdout w1 = stdout w @ worker_lines env w0 (i, c)"
proof -
  have fl: "fac_type_layers w0 c = fac_type_layers w c"
    using same by (rule fac_type_layers_cong)
  have le: "layers_exist w0 (i, c) = layers_exist w (i, c)"
    using same by (simp add: layers_exist_def)
  have to: "task_outcome w0 (i, c) = task_outcome w (i, c)"
    using fl by (simp add: task_outcome_def)
  have all: "r = task_outcome w0 (i, c)
    \<and> (\<forall>t. (layer_file t \<in> set (files w0)) = (layer_file t \<in> set (files w1)))
    \<and> shape_dir w1 = shape_dir w
    \<and> set (files w1) = set (files w) \<union>
           (if layers_exist w0 (i, c) \<and> raises env (intersect_of (i, c)) = None
            then {out_name i} else {})
    \<and> trace w1 = trace w @ (if layers_exist w0 (i, c) then [intersect_of (i, c)] else [])
    \<and> stdout w1 = stdout w @ worker_lines env w0 (i, c)"
  proof (cases "layers_exist w (i, c)")
    case False
    with process_combination_missing[OF False, of env] run same le to show ?thesis
      by (simp add: worker_lines_def)
  next
    case True
    note pc = process_combination_present[OF True, of env]
    have r: "r = Inr (out_name i)" using pc run by simp
    have t0: "task_outcome w0 (i, c) = Inr (out_name i)"
      using to True by (simp add: task_outcome_present)
    show ?thesis
    proof (cases "raises env (intersect_of (i, c))")
      case None
      with pc run have w1: "w1 = w\<lparr>trace := trace w @ [intersect_of (i, c)],
                 files := List.insert (out_name i) (files w)\<rparr>" by simp
      have f1: "r = task_outcome w0 (i, c)" using r t0 by simp
      have f2: "\<forall>t. (layer_file t \<in> set (files w0)) = (layer_file t \<in> set (files w1))"
        unfolding w1 using same by (simp add: layer_file_neq_out_name)
      have f3: "shape_dir w1 = shape_dir w" unfolding w1 by simp
      have f4: "set (files w1) = set (files w) \<union>
           (if layers_exist w0 (i, c) \<and> raises env (intersect_of (i, c)) = None
            then {out_name i} else {})" unfolding w1 using None True le by simp
      have f5: "trace w1 = trace w @ (if layers_exist w0 (i, c) then [intersect_of (i, c)] else [])"
        unfolding w1 using True le by simp
      have f6: "stdout w1 = stdout w @ worker_lines env w0 (i, c)"
        unfolding w1 using None by (simp add: worker_lines_def)
      from f1 f2 f3 f4 f5 f6 show ?thesis by blast
    next
      case (Some m)
      with pc run have w1: "w1 = w\<lparr>trace := trace w @ [intersect_of (i, c)],
                   stdout := stdout w @ [m, ''Warning: '' @ out_name i @ '' is ignored'']\<rparr>" by simp
      have f1: "r = task_outcome w0 (i, c)" using r t0 by simp
      have f2: "\<forall>t. (layer_file t \<in> set (files w0)) = (layer_file t \<in> set (files w1))"
        unfolding w1 using same by simp
      have f3: "shape_dir w1 = shape_dir w" unfolding w1 by simp
      have f4: "set (files w1) = set (files w) \<union>
           (if layers_exist w0 (i, c) \<and> raises env (intersect_of (i, c)) = None
            then {out_name i} else {})" unfolding w1 using Some by simp
      have f5: "trace w1 = trace w @ (if layers_exist w0 (i, c) then [intersect_of (i, c)] else [])"
        unfolding w1 using True le by simp
      have f6: "stdout w1 = stdout w @ worker_lines env w0 (i, c)"
        unfolding w1 using Some True le by (simp add: worker_lines_def)
      from f1 f2 f3 f4 f5 f6 show ?thesis by blast
    qed
  qed
  from all show "r = task_outcome w0 (i, c)" by simp
  from all show "\<forall>t. (layer_file t \<in> set (files w0)) = (layer_file t \<in> set (files w1))" by simp
  from all show "shape_dir w1 = shape_dir w" by simp
  from all show "set (files w1) = set (files w) \<union>
           (if layers_exist w0 (i, c) \<and> raises env (intersect_of (i, c)) = None
            then {out_name i} else {})" by simp
  from all show "trace w1 = trace w @ (if layers_exist w0 (i, c) then [intersect_of (i, c)] else [])"
    by simp
  from all show "stdout w1 = stdout w @ worker_lines env w0 (i, c)" by simp
qed

lemma get_all_Inr: "get_all (map (\<lambda>t. Inr (f t)) ts) = Inr (map f ts)"
  by (induction ts) (simp_all add: and_then_def)

lemma get_all_append_isl: "isl (get_all xs) \<Longrightarrow> get_all (xs @ ys) = get_all xs"
proof (induction xs)
  case Nil
  then show ?case by simp
next
  case (Cons r rs)
  show ?case
  proof (cases r)
    case (Inl e)
    then show ?thesis by (simp add: and_then_def)
  next
    case (Inr v)
    with Cons.prems have "isl (get_all rs)"
      by (cases "get_all rs") (simp_all add: and_then_def)
    with Cons.IH Inr show ?thesis by (simp add: and_then_def)
  qed
qed

lemma map_filter_Some:
  "\<forall>x\<in>set xs. f x = Some (g x) \<Longrightarrow> List.map_filter f xs = map g xs"
  by (induction xs) (simp_all add: map_filter_simps)

text \<open>
  What has been read when the pool is left: the results of all the tasks, or an initial
  run of them that holds an exception; the reading gives the same in both cases.
\<close>

lemma get_all_gotten:
  assumes res: "\<forall>i. res i = (if i \<in> set done then Some (g i) else None)"
    and stop: "{0..<n} \<subseteq> set done \<or> isl (get_all (gotten res n))"
  shows "get_all (gotten res n) = get_all (map g [0..<n])"
proof -
  let ?P = "\<lambda>i. res i \<noteq> None"
  let ?xs = "takeWhile ?P [0..<n]"
  have "\<forall>x\<in>set ?xs. res x = Some (g x)"
  proof
    fix x assume "x \<in> set ?xs"
    then have "res x \<noteq> None" by (rule set_takeWhileD[THEN conjunct2])
    with res show "res x = Some (g x)" by (simp split: if_splits)
  qed
  then have got: "gotten res n = map g ?xs"
    unfolding gotten_def by (rule map_filter_Some)
  have split: "[0..<n] = ?xs @ dropWhile ?P [0..<n]" by simp
  from stop show ?thesis
  proof
    assume "{0..<n} \<subseteq> set done"
    then have "\<forall>x\<in>set [0..<n]. ?P x" using res by auto
    then have xs: "?xs = [0..<n]" by (simp only: takeWhile_eq_all_conv)
    show ?thesis unfolding got xs by (rule refl)
  next
    assume "isl (get_all (gotten res n))"
    then have "get_all (map g ?xs @ map g (dropWhile ?P [0..<n])) = get_all (map g ?xs)"
      unfolding got by (rule get_all_append_isl)
    then have "get_all (map g (?xs @ dropWhile ?P [0..<n])) = get_all (map g ?xs)"
      by (simp only: map_append)
    then have "get_all (map g [0..<n]) = get_all (map g ?xs)"
      by (simp only: takeWhile_dropWhile_id)
    with got show ?thesis by simp
  qed
qed

text \<open>
  The workers: the tasks of an initial part \<open>done\<close> of the finishing order have run, each
  with the outcome it has in the world the pool started in, and either every task has run
  or the results read so far hold an exception.
\<close>

lemma run_workers_spec:
  assumes "\<forall>t. (layer_file t \<in> set (files w0)) = (layer_file t \<in> set (files w))"
    and "run_workers env ts order res w = (res', w')"
    and "\<forall>i\<in>set order. fst (ts ! i) = i"
  shows "\<exists>done rest. order = done @ rest
    \<and> (rest = [] \<or> isl (get_all (gotten res' (length ts))))
    \<and> (\<forall>i. res' i = (if i \<in> set done then Some (task_outcome w0 (ts ! i)) else res i))
    \<and> (\<forall>t. (layer_file t \<in> set (files w0)) = (layer_file t \<in> set (files w')))
    \<and> shape_dir w' = shape_dir w
    \<and> set (files w') = set (files w) \<union>
         {out_name i | i. i \<in> set done \<and> layers_exist w0 (ts ! i)
                          \<and> raises env (intersect_of (ts ! i)) = None}
    \<and> trace w' = trace w @ map (\<lambda>i. intersect_of (ts ! i))
                              (filter (\<lambda>i. layers_exist w0 (ts ! i)) done)
    \<and> stdout w' = stdout w @ concat (map (\<lambda>i. worker_lines env w0 (ts ! i)) done)"
  using assms
proof (induction order arbitrary: w res)
  case Nil
  then have "[] = [] @ ([] :: nat list)
    \<and> (([] :: nat list) = [] \<or> isl (get_all (gotten res' (length ts))))
    \<and> (\<forall>i. res' i = (if i \<in> set [] then Some (task_outcome w0 (ts ! i)) else res i))
    \<and> (\<forall>t. (layer_file t \<in> set (files w0)) = (layer_file t \<in> set (files w')))
    \<and> shape_dir w' = shape_dir w
    \<and> set (files w') = set (files w) \<union>
         {out_name i | i. i \<in> set [] \<and> layers_exist w0 (ts ! i)
                          \<and> raises env (intersect_of (ts ! i)) = None}
    \<and> trace w' = trace w @ map (\<lambda>i. intersect_of (ts ! i))
                              (filter (\<lambda>i. layers_exist w0 (ts ! i)) [])
    \<and> stdout w' = stdout w @ concat (map (\<lambda>i. worker_lines env w0 (ts ! i)) [])"
    by simp
  then show ?case by blast
next
  case (Cons i rest0)
  obtain r w1 where pc: "process_combination env (fst (ts ! i)) (snd (ts ! i)) w = (r, w1)"
    by (cases "process_combination env (fst (ts ! i)) (snd (ts ! i)) w")
  have ti: "(fst (ts ! i), snd (ts ! i)) = ts ! i" by simp
  have fi: "fst (ts ! i) = i" using Cons.prems(3) by simp
  note step = process_combination_step[OF Cons.prems(1) pc, unfolded ti]
  let ?res1 = "res(i \<mapsto> r)"
  have r: "r = task_outcome w0 (ts ! i)" using step(1) .
  have f1: "set (files w1) = set (files w) \<union>
         {out_name j | j. j \<in> set [i] \<and> layers_exist w0 (ts ! j)
                          \<and> raises env (intersect_of (ts ! j)) = None}"
  proof (cases "layers_exist w0 (ts ! i) \<and> raises env (intersect_of (ts ! i)) = None")
    case True
    have "set (files w1) = set (files w) \<union> {out_name (fst (ts ! i))}"
      using step(4) unfolding if_P[OF True] .
    then have "set (files w1) = set (files w) \<union> {out_name i}" using fi by simp
    then show ?thesis using True by auto
  next
    case False
    have "set (files w1) = set (files w) \<union> {}" using step(4) unfolding if_not_P[OF False] .
    then have "set (files w1) = set (files w)" by simp
    then show ?thesis using False by auto
  qed
  have t1: "trace w1 = trace w @ map (\<lambda>i. intersect_of (ts ! i))
                              (filter (\<lambda>i. layers_exist w0 (ts ! i)) [i])"
    unfolding step(5) by simp
  have o1: "stdout w1 = stdout w @ concat (map (\<lambda>i. worker_lines env w0 (ts ! i)) [i])"
    unfolding step(6) by simp
  show ?case
  proof (cases "isl (get_all (gotten ?res1 (length ts)))")
    case True
    with Cons.prems(2) pc have res': "res' = ?res1" and w': "w' = w1" by (simp_all add: Let_def)
    have a: "i # rest0 = [i] @ rest0" by simp
    have b: "rest0 = [] \<or> isl (get_all (gotten res' (length ts)))" using True res' by simp
    have c: "\<forall>j. res' j = (if j \<in> set [i] then Some (task_outcome w0 (ts ! j)) else res j)"
      unfolding res' using r by simp
    have d: "\<forall>t. (layer_file t \<in> set (files w0)) = (layer_file t \<in> set (files w'))"
      unfolding w' using step(2) .
    have e: "shape_dir w' = shape_dir w" unfolding w' using step(3) .
    from a b c d e f1[folded w'] t1[folded w'] o1[folded w'] show ?thesis by blast
  next
    case False
    with Cons.prems(2) pc have rw: "run_workers env ts rest0 ?res1 w1 = (res', w')"
      by (simp add: Let_def)
    have idx: "\<forall>i\<in>set rest0. fst (ts ! i) = i" using Cons.prems(3) by simp
    from Cons.IH[OF step(2) rw idx]
    obtain dn rest where o: "rest0 = dn @ rest"
      and b: "rest = [] \<or> isl (get_all (gotten res' (length ts)))"
      and c0: "\<forall>j. res' j = (if j \<in> set dn then Some (task_outcome w0 (ts ! j)) else ?res1 j)"
      and d: "\<forall>t. (layer_file t \<in> set (files w0)) = (layer_file t \<in> set (files w'))"
      and e0: "shape_dir w' = shape_dir w1"
      and f0: "set (files w') = set (files w1) \<union>
         {out_name i | i. i \<in> set dn \<and> layers_exist w0 (ts ! i)
                          \<and> raises env (intersect_of (ts ! i)) = None}"
      and t0: "trace w' = trace w1 @ map (\<lambda>i. intersect_of (ts ! i))
                              (filter (\<lambda>i. layers_exist w0 (ts ! i)) dn)"
      and o0: "stdout w' = stdout w1 @ concat (map (\<lambda>i. worker_lines env w0 (ts ! i)) dn)"
      by blast
    have a: "i # rest0 = (i # dn) @ rest" using o by simp
    have c: "\<forall>j. res' j = (if j \<in> set (i # dn) then Some (task_outcome w0 (ts ! j)) else res j)"
      using c0 r by simp
    have e: "shape_dir w' = shape_dir w" using e0 step(3) by simp
    have f: "set (files w') = set (files w) \<union>
         {out_name j | j. j \<in> set (i # dn) \<and> layers_exist w0 (ts ! j)
                          \<and> raises env (intersect_of (ts ! j)) = None}"
      unfolding f0 f1 by auto
    have t: "trace w' = trace w @ map (\<lambda>i. intersect_of (ts ! i))
                              (filter (\<lambda>i. layers_exist w0 (ts ! i)) (i # dn))"
      unfolding t0 t1 by simp
    have o: "stdout w' = stdout w @ concat (map (\<lambda>i. worker_lines env w0 (ts ! i)) (i # dn))"
      unfolding o0 o1 by simp
    from a b c d e f t o show ?thesis by blast
  qed
qed

lemma sort_completion_order: "sort (completion_order finish n) = [0..<n]"
  by (rule properties_for_sort) (simp_all add: completion_order_def)

lemma set_completion_order: "set (completion_order finish n) = {0..<n}"
  by (simp add: completion_order_def)

lemma distinct_completion_order: "distinct (completion_order finish n)"
  by (simp add: completion_order_def)

lemma tasks_indexed:
  assumes ts: "map fst ts = [0..<length ts]" and i: "i < length ts"
  shows "fst (ts ! i) = i"
proof -
  from i have "fst (ts ! i) = map fst ts ! i" by simp
  also have "\<dots> = i" using i by (simp add: ts)
  finally show ?thesis .
qed

text \<open>
  The pool, whatever the finishing order and whichever tasks were abandoned: reading the
  results gives what reading the outcomes of all the tasks in the order of submission
  gives, the first exception among them or all the names.
\<close>

lemma pool_result:
  assumes ts: "map fst ts = [0..<length ts]"
  shows "fst (pool env finish ts w) = get_all (map (task_outcome w) ts)"
proof -
  let ?order = "completion_order finish (length ts)"
  obtain res w2 where rw: "run_workers env ts ?order Map.empty w = (res, w2)"
    by (cases "run_workers env ts ?order Map.empty w")
  have idx: "\<forall>i\<in>set ?order. fst (ts ! i) = i"
    using tasks_indexed[OF ts] by (simp add: set_completion_order)
  have same: "\<forall>t. (layer_file t \<in> set (files w)) = (layer_file t \<in> set (files w))" by simp
  from run_workers_spec[OF same rw idx]
  obtain dn rest where o: "?order = dn @ rest"
    and b: "rest = [] \<or> isl (get_all (gotten res (length ts)))"
    and c: "\<forall>i. res i = (if i \<in> set dn then Some (task_outcome w (ts ! i)) else Map.empty i)"
    by blast
  have c': "\<forall>i. res i = (if i \<in> set dn then Some (task_outcome w (ts ! i)) else None)"
    using c by simp
  have stop: "{0..<length ts} \<subseteq> set dn \<or> isl (get_all (gotten res (length ts)))"
  proof (cases "rest = []")
    case True
    with o have "set dn = {0..<length ts}" using set_completion_order[of finish "length ts"] by simp
    then show ?thesis by simp
  next
    case False
    with b show ?thesis by simp
  qed
  have "get_all (gotten res (length ts)) = get_all (map (\<lambda>i. task_outcome w (ts ! i)) [0..<length ts])"
    using c' stop by (rule get_all_gotten)
  also have "map (\<lambda>i. task_outcome w (ts ! i)) [0..<length ts] = map (task_outcome w) ts"
    by (rule nth_equalityI) simp_all
  finally show ?thesis using rw by (simp add: pool_def)
qed

text \<open>
  The pool when the layers of every task exist: no worker raises, so no task is abandoned;
  all the names are returned and the intersections are called in the finishing order.
\<close>

lemma pool_spec:
  assumes ts: "map fst ts = [0..<length ts]"
    and le: "\<forall>t\<in>set ts. layers_exist w t"
    and p: "pool env finish ts w = (r, w')"
  shows "r = Inr (map (\<lambda>t. out_name (fst t)) ts)"
    and "shape_dir w' = shape_dir w"
    and "set (files w') = set (files w) \<union>
           {out_name (fst t) | t. t \<in> set ts \<and> raises env (intersect_of t) = None}"
    and "trace w' = trace w @ map (\<lambda>i. intersect_of (ts ! i)) (completion_order finish (length ts))"
    and "\<forall>t. (layer_file t \<in> set (files w)) = (layer_file t \<in> set (files w'))"
    and "stdout w' = stdout w @ concat (map (\<lambda>i. worker_lines env w (ts ! i))
           (completion_order finish (length ts)))"
proof -
  let ?order = "completion_order finish (length ts)"
  let ?n = "length ts"
  obtain res w2 where rw: "run_workers env ts ?order Map.empty w = (res, w2)"
    by (cases "run_workers env ts ?order Map.empty w")
  from p rw have w': "w' = w2" by (simp add: pool_def)
  have idx: "\<forall>i\<in>set ?order. fst (ts ! i) = i"
    using tasks_indexed[OF ts] by (simp add: set_completion_order)
  have same: "\<forall>t. (layer_file t \<in> set (files w)) = (layer_file t \<in> set (files w))" by simp
  have out: "task_outcome w t = Inr (out_name (fst t))" if "t \<in> set ts" for t
  proof -
    obtain i c where t: "t = (i, c)" by (cases t)
    from that le have "layers_exist w (i, c)" unfolding t by blast
    then show ?thesis unfolding t by (simp add: task_outcome_present)
  qed
  have all: "map (task_outcome w) ts = map (\<lambda>t. Inr (out_name (fst t))) ts"
    using out by simp
  have "r = get_all (map (task_outcome w) ts)" using pool_result[OF ts, of env finish w] p by simp
  also have "\<dots> = Inr (map (\<lambda>t. out_name (fst t)) ts)"
    unfolding all by (rule get_all_Inr)
  finally show r: "r = Inr (map (\<lambda>t. out_name (fst t)) ts)" .
  from run_workers_spec[OF same rw idx]
  obtain dn rest where o: "?order = dn @ rest"
    and b: "rest = [] \<or> isl (get_all (gotten res ?n))"
    and s2: "\<forall>t. (layer_file t \<in> set (files w)) = (layer_file t \<in> set (files w2))"
    and s3: "shape_dir w2 = shape_dir w"
    and s4: "set (files w2) = set (files w) \<union>
         {out_name i | i. i \<in> set dn \<and> layers_exist w (ts ! i)
                          \<and> raises env (intersect_of (ts ! i)) = None}"
    and s5: "trace w2 = trace w @ map (\<lambda>i. intersect_of (ts ! i))
                              (filter (\<lambda>i. layers_exist w (ts ! i)) dn)"
    and s6: "stdout w2 = stdout w @ concat (map (\<lambda>i. worker_lines env w (ts ! i)) dn)"
    by blast
  have "get_all (gotten res ?n) = r" using p rw by (simp add: pool_def)
  then have "\<not> isl (get_all (gotten res ?n))" using r by simp
  with b o have dn: "dn = ?order" by simp
  have lei: "layers_exist w (ts ! i)" if "i \<in> set ?order" for i
    using that le by (simp add: set_completion_order)
  show "shape_dir w' = shape_dir w" using s3 w' by simp
  have "{out_name i | i. i \<in> set ?order \<and> layers_exist w (ts ! i) \<and> raises env (intersect_of (ts ! i)) = None}
      = {out_name (fst t) | t. t \<in> set ts \<and> raises env (intersect_of t) = None}"
    (is "?A = ?B")
  proof (intro set_eqI iffI)
    fix x assume "x \<in> ?A"
    then obtain i where i: "i \<in> set ?order" "raises env (intersect_of (ts ! i)) = None"
      "x = out_name i" by blast
    then have "ts ! i \<in> set ts" "fst (ts ! i) = i" using idx by (simp_all add: set_completion_order)
    with i have "x = out_name (fst (ts ! i)) \<and> ts ! i \<in> set ts
        \<and> raises env (intersect_of (ts ! i)) = None" by simp
    then show "x \<in> ?B" by blast
  next
    fix x assume "x \<in> ?B"
    then obtain t where t: "t \<in> set ts" "raises env (intersect_of t) = None"
      "x = out_name (fst t)" by blast
    then obtain i where il: "i < length ts" and "ts ! i = t" by (auto simp: in_set_conv_nth)
    from il have io: "i \<in> set ?order" by (simp add: set_completion_order)
    with idx have "fst (ts ! i) = i" by blast
    note io this lei[OF io]
    with t \<open>ts ! i = t\<close> have "x = out_name i \<and> i \<in> set ?order \<and> layers_exist w (ts ! i)
        \<and> raises env (intersect_of (ts ! i)) = None" by simp
    then show "x \<in> ?A" by blast
  qed
  then show "set (files w') = set (files w) \<union> ?B" using s4 w' dn by simp
  have "filter (\<lambda>i. layers_exist w (ts ! i)) ?order = ?order"
    by (rule filter_True) (simp add: lei)
  then show "trace w' = trace w @ map (\<lambda>i. intersect_of (ts ! i)) ?order"
    using s5 w' dn by simp
  show "\<forall>t. (layer_file t \<in> set (files w)) = (layer_file t \<in> set (files w'))" using s2 w' by simp
  show "stdout w' = stdout w @ concat (map (\<lambda>i. worker_lines env w (ts ! i)) ?order)"
    using s6 w' dn by simp
qed


section \<open>The aggregation and the whole function\<close>

lemma operations_of_coverage_aggregate:
  "operations_of (coverage_aggregate names) = aggregate_operations names"
  by (simp add: coverage_aggregate_def aggregate_operations_def Let_def)

lemma exception_handler_fst:
  "fst (exception_handler env name f args w) = fst (f args w)"
  by (cases "f args w"; cases "fst (f args w)") (auto simp: exception_handler_def)

lemma exception_handler_world:
  "files (snd (exception_handler env name f args w)) = files (snd (f args w))
   \<and> trace (snd (exception_handler env name f args w)) = trace (snd (f args w))
   \<and> shape_dir (snd (exception_handler env name f args w)) = shape_dir (snd (f args w))"
  by (cases "f args w"; cases "fst (f args w)") (auto simp: exception_handler_def print_line_def)

lemma exception_handler_Inr:
  "fst (f args w) = Inr v \<Longrightarrow> exception_handler env name f args w = f args w"
  by (cases "f args w") (auto simp: exception_handler_def)

lemma run_stdout_extends: "\<exists>rest. stdout (snd (run env steps w)) = stdout w @ rest"
proof (induction steps arbitrary: w)
  case Nil
  then show ?case by simp
next
  case (Cons s steps)
  show ?case
  proof (cases s)
    case (Do op)
    show ?thesis
    proof (cases rule: perform_cases[of env op w])
      case (raised e)
      then show ?thesis using Do by simp
    next
      case returned
      let ?w1 = "w\<lparr>trace := trace w @ [op], files := outputs op (files w),
            shape_dir := (shape_dir w \<and> op \<noteq> Rmtree_shape)\<rparr>"
      from Cons.IH[of ?w1] obtain rest where "stdout (snd (run env steps ?w1)) = stdout ?w1 @ rest"
        by blast
      then show ?thesis using Do returned by simp
    qed
  next
    case (Print l)
    from Cons.IH[of "print_line l w"] obtain rest
      where "stdout (snd (run env steps (print_line l w))) = stdout (print_line l w) @ rest"
      by blast
    then show ?thesis using Print by (simp add: print_line_def)
  qed
qed

lemma three_or_above_fst:
  "fst (three_or_above_facilities env finish radius fl w)
     = fst (pipeline env finish FacilityTypes tasks (radius, fl) w)"
  by (simp add: three_or_above_facilities_def exception_handler_fst)

lemma three_or_above_world:
  "files (snd (three_or_above_facilities env finish radius fl w))
     = files (snd (pipeline env finish FacilityTypes tasks (radius, fl) w))"
  "trace (snd (three_or_above_facilities env finish radius fl w))
     = trace (snd (pipeline env finish FacilityTypes tasks (radius, fl) w))"
  "shape_dir (snd (three_or_above_facilities env finish radius fl w))
     = shape_dir (snd (pipeline env finish FacilityTypes tasks (radius, fl) w))"
  by (simp_all add: three_or_above_facilities_def exception_handler_world)

lemma map_fst_tasks: "map fst tasks = [0..<length tasks]"
  by (simp add: tasks_def scheduled_tasks_def)

lemma length_tasks: "length tasks = 56"
  by (simp add: tasks_def scheduled_tasks_def length_combinations FacilityTypes_def
      eval_nat_numeral binomial_Suc_Suc)

lemma tasks_within_types: "t \<in> set tasks \<Longrightarrow> set (snd t) \<subseteq> set FacilityTypes"
proof -
  assume "t \<in> set tasks"
  then have "snd t \<in> set (combinations FacilityTypes 3)"
    by (metis tasks_def map_snd_scheduled image_eqI set_map)
  then have "subseq (snd t) FacilityTypes" by (simp add: set_combinations)
  then show ?thesis by (auto dest: list_emb_set)
qed

text \<open>The three stages of the function, one after the other.\<close>

lemma pipeline_stages:
  obtains (buffer_raised) e w1 where
      "run env (buffer_stage env radius fl types) w = (Inl e, w1)"
      "pipeline env finish types ts (radius, fl) w = (Inl e, w1)"
  | (pool_raised) w1 e w2 where
      "run env (buffer_stage env radius fl types) w = (Inr (), w1)"
      "pool env finish ts w1 = (Inl e, w2)"
      "pipeline env finish types ts (radius, fl) w = (Inl e, w2)"
  | (aggregated) w1 names w2 where
      "run env (buffer_stage env radius fl types) w = (Inr (), w1)"
      "pool env finish ts w1 = (Inr names, w2)"
      "pipeline env finish types ts (radius, fl) w = run env (coverage_aggregate names) w2"
proof (cases "run env (buffer_stage env radius fl types) w")
  case (Pair r w1)
  show ?thesis
  proof (cases r)
    case (Inl e)
    with Pair show ?thesis by (intro buffer_raised[of e w1]) (simp_all add: pipeline_def)
  next
    case (Inr u)
    with Pair have b: "run env (buffer_stage env radius fl types) w = (Inr (), w1)" by simp
    show ?thesis
    proof (cases "pool env finish ts w1")
      case (Pair r2 w2)
      show ?thesis
      proof (cases r2)
        case (Inl e)
        with Pair b show ?thesis by (intro pool_raised[of w1 e w2]) (simp_all add: pipeline_def)
      next
        case (Inr names)
        with Pair b show ?thesis by (intro aggregated[of w1 names w2]) (simp_all add: pipeline_def)
      qed
    qed
  qed
qed

text \<open>Once the layers of all categories are made, no worker's assertion fails.\<close>

lemma layers_exist_after_buffer:
  assumes "run env (buffer_stage env radius fl types) w = (Inr u, w1)"
    and "set (snd t) \<subseteq> set types"
  shows "layers_exist w1 t"
  using buffer_stage_Inr(1)[OF assms(1)] assms(2)
  by (auto simp: layers_exist_def list_all_iff)

lemma pool_after_buffer:
  assumes b: "run env (buffer_stage env radius fl types) w = (Inr u, w1)"
    and ts: "map fst ts = [0..<length ts]"
    and sub: "\<forall>t\<in>set ts. set (snd t) \<subseteq> set types"
    and p: "pool env finish ts w1 = (r, w2)"
  shows "r = Inr (map (out_name \<circ> fst) ts)"
    and "shape_dir w2 = shape_dir w"
    and "set (files w2) = set (files w) \<union> {''facilities_buffer''} \<union> layer_file ` set types
           \<union> {out_name (fst t) | t. t \<in> set ts \<and> raises env (intersect_of t) = None}"
    and "trace w2 = trace w @ operations_of (buffer_stage env radius fl types)
           @ map (\<lambda>i. intersect_of (ts ! i)) (completion_order finish (length ts))"
    and "stdout w2 = stdout w1 @ concat (map (\<lambda>i. worker_lines env w1 (ts ! i))
           (completion_order finish (length ts)))"
proof -
  have le: "\<forall>t\<in>set ts. layers_exist w1 t"
    using layers_exist_after_buffer[OF b] sub by blast
  show "r = Inr (map (out_name \<circ> fst) ts)"
    using pool_spec(1)[OF ts le p] by (simp add: comp_def)
  show "shape_dir w2 = shape_dir w"
    using pool_spec(2)[OF ts le p] buffer_stage_Inr(2)[OF b] by simp
  show "set (files w2) = set (files w) \<union> {''facilities_buffer''} \<union> layer_file ` set types
           \<union> {out_name (fst t) | t. t \<in> set ts \<and> raises env (intersect_of t) = None}"
    using pool_spec(3)[OF ts le p] buffer_stage_Inr(1)[OF b] by simp
  show "trace w2 = trace w @ operations_of (buffer_stage env radius fl types)
           @ map (\<lambda>i. intersect_of (ts ! i)) (completion_order finish (length ts))"
    using pool_spec(4)[OF ts le p] buffer_stage_Inr(3)[OF b] by simp
  show "stdout w2 = stdout w1 @ concat (map (\<lambda>i. worker_lines env w1 (ts ! i))
           (completion_order finish (length ts)))"
    using pool_spec(6)[OF ts le p] .
qed

lemma aggregate_Inr_iff:
  "fst (run env (coverage_aggregate names) w) = Inr () \<longleftrightarrow>
     shape_dir w \<and> (\<forall>op\<in>set (aggregate_operations names). op \<noteq> Rmtree_shape \<longrightarrow> raises env op = None)"
  by (auto simp: coverage_aggregate_def aggregate_operations_def Let_def perform_def failure_def
      split: option.splits)


lemma aggregate_Inr_world:
  assumes "run env (coverage_aggregate names) w = (Inr u, w')"
  shows "trace w' = trace w @ aggregate_operations names"
    and "\<not> shape_dir w'"
    and "list_all (\<lambda>f. \<not> prefix ''./shape/'' f) (files w')"
    and "''ThreeTypeIntersect'' \<in> set (files w')"
proof -
  note r = run_Inr_world[OF assms, unfolded operations_of_coverage_aggregate]
  from r show "trace w' = trace w @ aggregate_operations names" by simp
  from r show "\<not> shape_dir w'" by (simp add: aggregate_operations_def)
  from r have f: "files w' = fold outputs (aggregate_operations names) (files w)" by simp
  show "list_all (\<lambda>f. \<not> prefix ''./shape/'' f) (files w')"
    unfolding f by (auto simp: aggregate_operations_def list_all_iff)
  show "''ThreeTypeIntersect'' \<in> set (files w')"
    unfolding f by (simp add: aggregate_operations_def)
qed

lemma buffer_stage_fst:
  "fst (run env (buffer_stage env radius fl types) w) =
     (case List.find (\<lambda>op. raises env op \<noteq> None) (operations_of (buffer_stage env radius fl types)) of
        None \<Rightarrow> Inr ()
      | Some op \<Rightarrow> Inl (ExecuteError (the (raises env op))))"
  by (rule run_result_tools) (rule buffer_stage_no_rmtree)

lemma tasks_sub: "\<forall>t\<in>set tasks. set (snd t) \<subseteq> set FacilityTypes"
  using tasks_within_types by blast

text \<open>What a normal completion of the function looks like.\<close>

lemma pipeline_Inr:
  assumes "pipeline env finish FacilityTypes tasks (radius, fl) w = (Inr u, w')"
  obtains w1 w2 where
    "run env (buffer_stage env radius fl FacilityTypes) w = (Inr (), w1)"
    "pool env finish tasks w1 = (Inr (map (out_name \<circ> fst) tasks), w2)"
    "run env (coverage_aggregate (map (out_name \<circ> fst) tasks)) w2 = (Inr u, w')"
proof (cases rule: pipeline_stages[of env radius fl FacilityTypes w finish tasks])
  case (buffer_raised e w1)
  with assms show ?thesis by simp
next
  case (pool_raised w1 e w2)
  with assms show ?thesis by simp
next
  case (aggregated w1 names w2)
  from pool_after_buffer(1)[OF aggregated(1) map_fst_tasks tasks_sub aggregated(2)]
  have "names = map (out_name \<circ> fst) tasks" by simp
  with aggregated assms show ?thesis by (intro that[of w1 w2]) simp_all
qed

lemma completes_when_tools_return:
  assumes dir: "shape_dir w"
    and ok: "\<forall>op. (\<forall>ins out join. op \<noteq> Intersect_analysis ins out join) \<longrightarrow> raises env op = None"
  shows "fst (three_or_above_facilities env finish radius fl w) = Inr ()"
proof -
  have "\<forall>op\<in>set (operations_of (buffer_stage env radius fl FacilityTypes)). raises env op = None"
    using ok buffer_stage_no_intersect by metis
  then have "List.find (\<lambda>op. raises env op \<noteq> None)
      (operations_of (buffer_stage env radius fl FacilityTypes)) = None"
    by (simp add: find_None_iff)
  then have b: "fst (run env (buffer_stage env radius fl FacilityTypes) w) = Inr ()"
    by (simp add: buffer_stage_fst)
  show ?thesis
  proof (cases rule: pipeline_stages[of env radius fl FacilityTypes w finish tasks])
    case (buffer_raised e w1)
    with b show ?thesis by simp
  next
    case (pool_raised w1 e w2)
    from pool_after_buffer(1)[OF pool_raised(1) map_fst_tasks tasks_sub pool_raised(2)]
    show ?thesis by simp
  next
    case (aggregated w1 names w2)
    have "shape_dir w2"
      using pool_after_buffer(2)[OF aggregated(1) map_fst_tasks tasks_sub aggregated(2)] dir by simp
    moreover have "\<forall>op\<in>set (aggregate_operations names). op \<noteq> Rmtree_shape \<longrightarrow> raises env op = None"
      using ok by (simp add: aggregate_operations_def)
    ultimately have "fst (run env (coverage_aggregate names) w2) = Inr ()"
      by (simp add: aggregate_Inr_iff)
    with aggregated(3) show ?thesis by (simp add: three_or_above_fst)
  qed
qed

text \<open>
  The operations of a run that completes normally, in order: the buffer stage; one
  intersection per combination, in the order in which the workers finish; and the nine
  operations of the aggregation, on the output names of all combinations in the order of
  the tasks.
\<close>

lemma completed_run_operations:
  "fst (three_or_above_facilities env finish radius fl w) = Inr () \<longrightarrow>
   trace (snd (three_or_above_facilities env finish radius fl w)) =
     trace w
     @ operations_of (buffer_stage env radius fl FacilityTypes)
     @ map (\<lambda>i. intersect_of (tasks ! i)) (completion_order finish (length tasks))
     @ [Merge (map (out_name \<circ> fst) tasks) ''ThreeTypeIntersect'',
        Clip_analysis ''ThreeTypeIntersect'' ''./Hong_Kong_18_Districts/HKDistrict18.shp'',
        Rmtree_shape,
        Dissolve_management ''ThreeTypeIntersect'' ''ThreeTypeIntersect_temp'',
        Delete_management ''ThreeTypeIntersect'',
        Rename_management ''ThreeTypeIntersect_temp'' ''ThreeTypeIntersect'',
        MultipartToSinglepart_management ''ThreeTypeIntersect'' ''ThreeTypeIntersect_temp'',
        Delete_management ''ThreeTypeIntersect'',
        Rename_management ''ThreeTypeIntersect_temp'' ''ThreeTypeIntersect'']"
proof
  assume ok: "fst (three_or_above_facilities env finish radius fl w) = Inr ()"
  obtain w' where p: "pipeline env finish FacilityTypes tasks (radius, fl) w = (Inr (), w')"
    using ok unfolding three_or_above_fst
    by (cases "pipeline env finish FacilityTypes tasks (radius, fl) w") auto
  from p obtain w1 w2 where
    b: "run env (buffer_stage env radius fl FacilityTypes) w = (Inr (), w1)" and
    q: "pool env finish tasks w1 = (Inr (map (out_name \<circ> fst) tasks), w2)" and
    a: "run env (coverage_aggregate (map (out_name \<circ> fst) tasks)) w2 = (Inr (), w')"
    by (rule pipeline_Inr)
  have "trace w' = trace w2 @ aggregate_operations (map (out_name \<circ> fst) tasks)"
    using aggregate_Inr_world(1)[OF a] .
  also have "trace w2 = trace w @ operations_of (buffer_stage env radius fl FacilityTypes)
           @ map (\<lambda>i. intersect_of (tasks ! i)) (completion_order finish (length tasks))"
    using pool_after_buffer(4)[OF b map_fst_tasks tasks_sub q] .
  finally show "trace (snd (three_or_above_facilities env finish radius fl w)) =
     trace w
     @ operations_of (buffer_stage env radius fl FacilityTypes)
     @ map (\<lambda>i. intersect_of (tasks ! i)) (completion_order finish (length tasks))
     @ [Merge (map (out_name \<circ> fst) tasks) ''ThreeTypeIntersect'',
        Clip_analysis ''ThreeTypeIntersect'' ''./Hong_Kong_18_Districts/HKDistrict18.shp'',
        Rmtree_shape,
        Dissolve_management ''ThreeTypeIntersect'' ''ThreeTypeIntersect_temp'',
        Delete_management ''ThreeTypeIntersect'',
        Rename_management ''ThreeTypeIntersect_temp'' ''ThreeTypeIntersect'',
        MultipartToSinglepart_management ''ThreeTypeIntersect'' ''ThreeTypeIntersect_temp'',
        Delete_management ''ThreeTypeIntersect'',
        Rename_management ''ThreeTypeIntersect_temp'' ''ThreeTypeIntersect'']"
    unfolding three_or_above_world(2) p by (simp add: aggregate_operations_def)
qed

lemma quiet_run_completes:
  "fst (three_or_above_facilities (env_with quiet) finish radius fl start_world) = Inr ()"
  by (rule completes_when_tools_return) (simp_all add: start_world_def env_with_def quiet_def)

lemma first_intersect_raises_run_completes:
  "fst (three_or_above_facilities (env_with first_intersect_raises) finish radius fl start_world) = Inr ()"
  by (rule completes_when_tools_return)
     (auto simp: start_world_def env_with_def first_intersect_raises_def split: operation.splits)

lemma tasks_0: "tasks ! 0 = (0, [''Badminton Courts'', ''Basketball Courts'', ''Country Parks''])"
  by (simp add: tasks_def scheduled_tasks_def FacilityTypes_def eval_nat_numeral enumerate_eq_zip
      del: upt_Suc)

lemma first_intersect_raises_0:
  "raises (env_with first_intersect_raises) (intersect_of (tasks ! 0)) = Some ''ERROR 000953''"
  by (simp add: tasks_0 env_with_def first_intersect_raises_def intersect_of_def)

lemma quiet_run_operations:
  "Merge (map (out_name \<circ> fst) tasks) ''ThreeTypeIntersect''
     \<in> set (trace (snd (three_or_above_facilities (env_with quiet) (\<lambda>i. i) 500 ''facilities_list'' start_world)))
   \<and> length (trace (snd (three_or_above_facilities (env_with quiet) (\<lambda>i. i) 500 ''facilities_list''
        start_world))) = 90"
  using completed_run_operations[of "env_with quiet" "\<lambda>i. i" 500 "''facilities_list''" start_world]
    quiet_run_completes[of "\<lambda>i. i" 500 "''facilities_list''"]
  by (simp add: operations_of_buffer_stage operations_of_make_fac_type_layer FacilityTypes_def
      completion_order_def length_tasks start_world_def)

text \<open>
  Claim C2: the function where one intersection raises. In the run in which the
  intersection of the first combination raises and every other tool returns, the worker
  prints \<^verbatim>\<open>Warning: ./shape/FeatureCombination_0.shp is ignored\<close>, and yet the function
  completes with that name first in the list of all 56 output names handed to \<^verbatim>\<open>Merge\<close>:
  nothing is discarded. The operations that follow are \<^verbatim>\<open>Clip_analysis\<close> of the merged
  dataset with the boundary, called without an output (it leaves the datasets as they are),
  the removal of the scratch directory, \<^verbatim>\<open>Dissolve\<close> of the merged dataset itself and
  \<^verbatim>\<open>MultipartToSinglepart\<close>, each of the last two followed by a delete and a rename that
  put the result under the final name.
\<close>

theorem failed_results_are_merged:
  "raises (env_with first_intersect_raises) (intersect_of (tasks ! 0)) = Some ''ERROR 000953''
   \<and> fst (three_or_above_facilities (env_with first_intersect_raises) (\<lambda>i. i) 500 ''facilities_list''
        start_world) = Inr ()
   \<and> Merge (map (out_name \<circ> fst) tasks) ''ThreeTypeIntersect''
       \<in> set (trace (snd (three_or_above_facilities (env_with first_intersect_raises) (\<lambda>i. i) 500
            ''facilities_list'' start_world)))
   \<and> out_name (fst (tasks ! 0)) \<in> set (map (out_name \<circ> fst) tasks)
   \<and> out_name (fst (tasks ! 0)) = ''./shape/FeatureCombination_0.shp''
   \<and> ''Warning: ./shape/FeatureCombination_0.shp is ignored''
       \<in> set (stdout (snd (three_or_above_facilities (env_with first_intersect_raises) (\<lambda>i. i) 500
            ''facilities_list'' start_world)))
   \<and> length (map (out_name \<circ> fst) tasks) = 56
   \<and> hd (map (out_name \<circ> fst) tasks) = ''./shape/FeatureCombination_0.shp''
   \<and> drop 81 (trace (snd (three_or_above_facilities (env_with first_intersect_raises) (\<lambda>i. i) 500
            ''facilities_list'' start_world)))
       = [Merge (map (out_name \<circ> fst) tasks) ''ThreeTypeIntersect'',
          Clip_analysis ''ThreeTypeIntersect'' ''./Hong_Kong_18_Districts/HKDistrict18.shp'',
          Rmtree_shape,
          Dissolve_management ''ThreeTypeIntersect'' ''ThreeTypeIntersect_temp'',
          Delete_management ''ThreeTypeIntersect'',
          Rename_management ''ThreeTypeIntersect_temp'' ''ThreeTypeIntersect'',
          MultipartToSinglepart_management ''ThreeTypeIntersect'' ''ThreeTypeIntersect_temp'',
          Delete_management ''ThreeTypeIntersect'',
          Rename_management ''ThreeTypeIntersect_temp'' ''ThreeTypeIntersect'']
   \<and> outputs (Clip_analysis ''ThreeTypeIntersect'' ''./Hong_Kong_18_Districts/HKDistrict18.shp'')
         [''ThreeTypeIntersect''] = [''ThreeTypeIntersect'']"
proof -
  let ?env = "env_with first_intersect_raises"
  let ?run = "three_or_above_facilities ?env (\<lambda>i. i) 500 ''facilities_list'' start_world"
  let ?names = "map (out_name \<circ> fst) tasks"
  have ok: "fst ?run = Inr ()" by (rule first_intersect_raises_run_completes)
  obtain w' where p: "pipeline ?env (\<lambda>i. i) FacilityTypes tasks
      (500, ''facilities_list'') start_world = (Inr (), w')"
    using ok unfolding three_or_above_fst
    by (cases "pipeline ?env (\<lambda>i. i) FacilityTypes tasks (500, ''facilities_list'') start_world") auto
  have run: "?run = (Inr (), w')"
    unfolding three_or_above_facilities_def
    using exception_handler_Inr[of "pipeline ?env (\<lambda>i. i) FacilityTypes tasks"
        "(500, ''facilities_list'')" start_world "()" ?env "''three_or_above_facilities''"] p
    by simp
  from p obtain w1 w2 where
    b: "run ?env (buffer_stage ?env 500 ''facilities_list'' FacilityTypes) start_world = (Inr (), w1)" and
    q: "pool ?env (\<lambda>i. i) tasks w1 = (Inr ?names, w2)" and
    a: "run ?env (coverage_aggregate ?names) w2 = (Inr (), w')"
    by (rule pipeline_Inr)
  have tr: "trace w' = trace start_world
     @ operations_of (buffer_stage ?env 500 ''facilities_list'' FacilityTypes)
     @ map (\<lambda>i. intersect_of (tasks ! i)) (completion_order (\<lambda>i. i) (length tasks))
     @ aggregate_operations ?names"
    using aggregate_Inr_world(1)[OF a] pool_after_buffer(4)[OF b map_fst_tasks tasks_sub q] by simp
  have m: "Merge ?names ''ThreeTypeIntersect'' \<in> set (trace (snd ?run))"
    unfolding run using tr by (simp add: aggregate_operations_def)
  define before where "before = trace start_world
     @ operations_of (buffer_stage ?env 500 ''facilities_list'' FacilityTypes)
     @ map (\<lambda>i. intersect_of (tasks ! i)) (completion_order (\<lambda>i. i) (length tasks))"
  have len: "length before = 81"
    unfolding before_def
    by (simp add: operations_of_buffer_stage operations_of_make_fac_type_layer FacilityTypes_def
      completion_order_def length_tasks start_world_def)
  have "trace w' = before @ aggregate_operations ?names"
    unfolding tr before_def by simp
  then have "drop 81 (trace w') = aggregate_operations ?names"
    using len by simp
  then have d: "drop 81 (trace (snd ?run))
       = [Merge ?names ''ThreeTypeIntersect'',
          Clip_analysis ''ThreeTypeIntersect'' ''./Hong_Kong_18_Districts/HKDistrict18.shp'',
          Rmtree_shape,
          Dissolve_management ''ThreeTypeIntersect'' ''ThreeTypeIntersect_temp'',
          Delete_management ''ThreeTypeIntersect'',
          Rename_management ''ThreeTypeIntersect_temp'' ''ThreeTypeIntersect'',
          MultipartToSinglepart_management ''ThreeTypeIntersect'' ''ThreeTypeIntersect_temp'',
          Delete_management ''ThreeTypeIntersect'',
          Rename_management ''ThreeTypeIntersect_temp'' ''ThreeTypeIntersect'']"
    unfolding run by (simp add: aggregate_operations_def)
  have l0: "0 < length tasks" by (simp add: length_tasks)
  then have "tasks ! 0 \<in> set tasks" by (rule nth_mem)
  then have i: "out_name (fst (tasks ! 0)) \<in> set ?names" by force
  have n: "out_name (fst (tasks ! 0)) = ''./shape/FeatureCombination_0.shp''"
    by (simp add: tasks_0 out_name_def str_nat.simps digit_chr_def)
  have ln: "length ?names = 56" by (simp add: length_tasks)
  have "hd ?names = out_name (fst (tasks ! 0))"
    using l0 by (simp add: hd_map hd_conv_nth)
  then have h: "hd ?names = ''./shape/FeatureCombination_0.shp''" using n by simp
  have le: "layers_exist w1 (tasks ! 0)"
    using layers_exist_after_buffer[OF b] tasks_sub \<open>tasks ! 0 \<in> set tasks\<close> by blast
  have wl: "worker_lines ?env w1 (tasks ! 0)
      = [''ERROR 000953'', ''Warning: '' @ out_name (fst (tasks ! 0)) @ '' is ignored'']"
    using le first_intersect_raises_0 by (simp add: worker_lines_def)
  have "0 \<in> set (completion_order (\<lambda>i. i) (length tasks))"
    using l0 by (simp add: set_completion_order)
  moreover have "''Warning: '' @ out_name (fst (tasks ! 0)) @ '' is ignored''
      \<in> set (worker_lines ?env w1 (tasks ! 0))"
    unfolding wl by simp
  ultimately have "\<exists>i\<in>set (completion_order (\<lambda>i. i) (length tasks)).
      ''Warning: '' @ out_name (fst (tasks ! 0)) @ '' is ignored''
        \<in> set (worker_lines ?env w1 (tasks ! i))"
    by blast
  then have "''Warning: '' @ out_name (fst (tasks ! 0)) @ '' is ignored''
      \<in> set (concat (map (\<lambda>i. worker_lines ?env w1 (tasks ! i))
           (completion_order (\<lambda>i. i) (length tasks))))"
    by simp
  then have "''Warning: '' @ out_name (fst (tasks ! 0)) @ '' is ignored'' \<in> set (stdout w2)"
    unfolding pool_after_buffer(5)[OF b map_fst_tasks tasks_sub q] by simp
  moreover obtain rest where "stdout w' = stdout w2 @ rest"
    using run_stdout_extends[of ?env "coverage_aggregate ?names" w2] a by auto
  ultimately have "''Warning: '' @ out_name (fst (tasks ! 0)) @ '' is ignored'' \<in> set (stdout w')"
    by simp
  then have s: "''Warning: ./shape/FeatureCombination_0.shp is ignored'' \<in> set (stdout (snd ?run))"
    unfolding run n by simp
  have c: "outputs (Clip_analysis ''ThreeTypeIntersect'' ''./Hong_Kong_18_Districts/HKDistrict18.shp'')
         [''ThreeTypeIntersect''] = [''ThreeTypeIntersect'']" by simp
  from first_intersect_raises_0 ok m i n s ln h d c show ?thesis by blast
qed

section \<open>The worker and failed intersections\<close>

text \<open>
  A worker whose intersection raises catches the exception, prints its text and a warning
  that names the output, and returns; the batch goes on: once the layer files of all tasks
  exist, the pool attempts the intersection of every task, whatever the intersections do.
\<close>

lemma batch_survives_failed_intersection:
  "(layers_exist w (index, comb) \<and> raises env (intersect_of (index, comb)) = Some m \<longrightarrow>
      process_combination env index comb w =
        (Inr (out_name index),
         w\<lparr>trace := trace w @ [intersect_of (index, comb)],
           stdout := stdout w @ [m, ''Warning: '' @ out_name index @ '' is ignored'']\<rparr>))
   \<and> (map fst ts = [0..<length ts] \<and> list_all (layers_exist w) ts \<longrightarrow>
        fst (pool env finish ts w) = Inr (map (out_name \<circ> fst) ts)
        \<and> trace (snd (pool env finish ts w))
            = trace w @ map (\<lambda>i. intersect_of (ts ! i)) (completion_order finish (length ts)))"
proof (intro conjI impI)
  assume "layers_exist w (index, comb) \<and> raises env (intersect_of (index, comb)) = Some m"
  then show "process_combination env index comb w =
        (Inr (out_name index),
         w\<lparr>trace := trace w @ [intersect_of (index, comb)],
           stdout := stdout w @ [m, ''Warning: '' @ out_name index @ '' is ignored'']\<rparr>)"
    using process_combination_present[of w index comb env] by simp
next
  assume a: "map fst ts = [0..<length ts] \<and> list_all (layers_exist w) ts"
  then have ts: "map fst ts = [0..<length ts]" and le: "\<forall>t\<in>set ts. layers_exist w t"
    by (simp_all add: list_all_iff)
  obtain r w' where p: "pool env finish ts w = (r, w')" by (cases "pool env finish ts w")
  have "r = Inr (map (out_name \<circ> fst) ts)"
    using pool_spec(1)[OF ts le p] by (simp add: comp_def)
  then show "fst (pool env finish ts w) = Inr (map (out_name \<circ> fst) ts)" using p by simp
  show "trace (snd (pool env finish ts w))
            = trace w @ map (\<lambda>i. intersect_of (ts ! i)) (completion_order finish (length ts))"
    using pool_spec(4)[OF ts le p] p by simp
qed

lemma layers_exist_example:
  "layers_exist (start_world\<lparr>files := map layer_file FacilityTypes\<rparr>)
     (0, [''Badminton Courts'', ''Basketball Courts'', ''Country Parks''])"
  by (simp add: layers_exist_def start_world_def FacilityTypes_def)

lemma first_intersect_raises_example:
  "raises (env_with first_intersect_raises)
     (intersect_of (0, [''Badminton Courts'', ''Basketball Courts'', ''Country Parks'']))
   = Some ''ERROR 000953''"
  by (simp add: env_with_def first_intersect_raises_def intersect_of_def)

text \<open>
  Claim C3: the worker where the intersection raises. For the first combination, in a
  world where its layers exist, the worker prints the error of the provider and
  \<^verbatim>\<open>Warning: ./shape/FeatureCombination_0.shp is ignored\<close>, and then returns that name: the
  value it returns when the intersection succeeds. The result carries no mark of the
  failure, and the dataset it names has not been written.
\<close>

theorem failed_intersection_returns_like_success:
  "raises (env_with first_intersect_raises)
     (intersect_of (0, [''Badminton Courts'', ''Basketball Courts'', ''Country Parks'']))
     = Some ''ERROR 000953''
   \<and> raises (env_with quiet)
     (intersect_of (0, [''Badminton Courts'', ''Basketball Courts'', ''Country Parks''])) = None
   \<and> fst (process_combination (env_with first_intersect_raises) 0
        [''Badminton Courts'', ''Basketball Courts'', ''Country Parks'']
        (start_world\<lparr>files := map layer_file FacilityTypes\<rparr>))
     = fst (process_combination (env_with quiet) 0
        [''Badminton Courts'', ''Basketball Courts'', ''Country Parks'']
        (start_world\<lparr>files := map layer_file FacilityTypes\<rparr>))
   \<and> process_combination (env_with first_intersect_raises) 0
        [''Badminton Courts'', ''Basketball Courts'', ''Country Parks'']
        (start_world\<lparr>files := map layer_file FacilityTypes\<rparr>)
     = (Inr ''./shape/FeatureCombination_0.shp'',
        start_world\<lparr>files := map layer_file FacilityTypes,
          trace := [Intersect_analysis
            [''./shape/Badminton_Courts_Layer.shp'', ''./shape/Basketball_Courts_Layer.shp'',
             ''./shape/Country_Parks_Layer.shp'']
            ''./shape/FeatureCombination_0.shp'' ''ONLY_FID''],
          stdout := [''ERROR 000953'', ''Warning: ./shape/FeatureCombination_0.shp is ignored'']\<rparr>)
   \<and> ''./shape/FeatureCombination_0.shp''
       \<notin> set (files (snd (process_combination (env_with first_intersect_raises) 0
            [''Badminton Courts'', ''Basketball Courts'', ''Country Parks'']
            (start_world\<lparr>files := map layer_file FacilityTypes\<rparr>))))
   \<and> ''./shape/FeatureCombination_0.shp''
       \<in> set (files (snd (process_combination (env_with quiet) 0
            [''Badminton Courts'', ''Basketball Courts'', ''Country Parks'']
            (start_world\<lparr>files := map layer_file FacilityTypes\<rparr>))))"
proof -
  let ?w = "start_world\<lparr>files := map layer_file FacilityTypes\<rparr>"
  let ?comb = "[''Badminton Courts'', ''Basketball Courts'', ''Country Parks'']"
  have name: "out_name 0 = ''./shape/FeatureCombination_0.shp''"
    by (simp add: out_name_def str_nat.simps digit_chr_def)
  have i: "intersect_of (0, ?comb)
      = Intersect_analysis
            [''./shape/Badminton_Courts_Layer.shp'', ''./shape/Basketball_Courts_Layer.shp'',
             ''./shape/Country_Parks_Layer.shp'']
            ''./shape/FeatureCombination_0.shp'' ''ONLY_FID''"
    by (simp add: intersect_of_def name layer_file_def replace_special_chars_def replace_chr_def)
  have q: "raises (env_with quiet) (intersect_of (0, ?comb)) = None"
    by (simp add: env_with_def quiet_def)
  note r = first_intersect_raises_example
  have p1: "process_combination (env_with first_intersect_raises) 0 ?comb ?w
      = (Inr (out_name 0),
         ?w\<lparr>trace := trace ?w @ [intersect_of (0, ?comb)],
            stdout := stdout ?w @ [''ERROR 000953'', ''Warning: '' @ out_name 0 @ '' is ignored'']\<rparr>)"
    unfolding process_combination_present[OF layers_exist_example] r by simp
  have p2: "process_combination (env_with quiet) 0 ?comb ?w
      = (Inr (out_name 0),
         ?w\<lparr>trace := trace ?w @ [intersect_of (0, ?comb)],
            files := List.insert (out_name 0) (files ?w)\<rparr>)"
    unfolding process_combination_present[OF layers_exist_example] q by simp
  have nf: "''./shape/FeatureCombination_0.shp'' \<notin> set (map layer_file FacilityTypes)"
    by (simp add: FacilityTypes_def layer_file_def replace_special_chars_def replace_chr_def)
  have c3: "fst (process_combination (env_with first_intersect_raises) 0 ?comb ?w)
      = fst (process_combination (env_with quiet) 0 ?comb ?w)"
    unfolding p1 p2 by simp
  have c4: "process_combination (env_with first_intersect_raises) 0 ?comb ?w
     = (Inr ''./shape/FeatureCombination_0.shp'',
        start_world\<lparr>files := map layer_file FacilityTypes,
          trace := [Intersect_analysis
            [''./shape/Badminton_Courts_Layer.shp'', ''./shape/Basketball_Courts_Layer.shp'',
             ''./shape/Country_Parks_Layer.shp'']
            ''./shape/FeatureCombination_0.shp'' ''ONLY_FID''],
          stdout := [''ERROR 000953'', ''Warning: ./shape/FeatureCombination_0.shp is ignored'']\<rparr>)"
    unfolding p1 i name by (simp add: start_world_def)
  have c5: "''./shape/FeatureCombination_0.shp''
       \<notin> set (files (snd (process_combination (env_with first_intersect_raises) 0 ?comb ?w)))"
    unfolding p1 using nf by simp
  have c6: "''./shape/FeatureCombination_0.shp''
       \<in> set (files (snd (process_combination (env_with quiet) 0 ?comb ?w)))"
    unfolding p2 name by simp
  from r q c3 c4 c5 c6 show ?thesis by blast
qed

section \<open>Failures before the pool, and the inputs that are checked\<close>

lemma run_Do_trace:
  "\<exists>rest. trace (snd (run env (Do op # steps) w)) = trace w @ op # rest"
proof (cases rule: perform_cases[of env op w])
  case (raised e)
  then show ?thesis by simp
next
  case returned
  obtain r w' where r: "run env steps (w\<lparr>trace := trace w @ [op], files := outputs op (files w),
            shape_dir := (shape_dir w \<and> op \<noteq> Rmtree_shape)\<rparr>) = (r, w')"
    by (cases "run env steps (w\<lparr>trace := trace w @ [op], files := outputs op (files w),
            shape_dir := (shape_dir w \<and> op \<noteq> Rmtree_shape)\<rparr>)")
  from run_trace_prefix[OF r] obtain k where "trace w' = (trace w @ [op]) @ take k (operations_of steps)"
    by auto
  with returned r show ?thesis by simp
qed

lemma process_combination_trace:
  "\<exists>rest. trace (snd (process_combination env i c w)) = trace w @ rest"
proof (cases "layers_exist w (i, c)")
  case True
  show ?thesis
    by (cases "raises env (intersect_of (i, c))")
       (simp_all add: process_combination_present[OF True])
next
  case False
  then show ?thesis using process_combination_missing[OF False, of env] by simp
qed

lemma run_workers_trace:
  "\<exists>rest. trace (snd (run_workers env ts order res w)) = trace w @ rest"
proof (induction order arbitrary: w res)
  case Nil
  then show ?case by simp
next
  case (Cons i order)
  obtain r w1 where pc: "process_combination env (fst (ts ! i)) (snd (ts ! i)) w = (r, w1)"
    by (cases "process_combination env (fst (ts ! i)) (snd (ts ! i)) w")
  from process_combination_trace[of env "fst (ts ! i)" "snd (ts ! i)" w] pc
  obtain a where a: "trace w1 = trace w @ a" by auto
  show ?case
  proof (cases "isl (get_all (gotten (res(i \<mapsto> r)) (length ts)))")
    case True
    with pc a show ?thesis by (simp add: Let_def)
  next
    case False
    obtain rs w2 where rw: "run_workers env ts order (res(i \<mapsto> r)) w1 = (rs, w2)"
      by (cases "run_workers env ts order (res(i \<mapsto> r)) w1")
    from Cons.IH[of "res(i \<mapsto> r)" w1] obtain b
      where "trace (snd (run_workers env ts order (res(i \<mapsto> r)) w1)) = trace w1 @ b" by blast
    then have b: "trace w2 = trace w1 @ b" unfolding rw by simp
    from a b have "trace w2 = trace w @ (a @ b)" by simp
    then show ?thesis using pc rw False by (simp add: Let_def)
  qed
qed

lemma pool_trace: "\<exists>rest. trace (snd (pool env finish ts w)) = trace w @ rest"
proof -
  obtain res w' where rw:
    "run_workers env ts (completion_order finish (length ts)) Map.empty w = (res, w')"
    by (cases "run_workers env ts (completion_order finish (length ts)) Map.empty w")
  then have "snd (pool env finish ts w) = w'" by (simp add: pool_def)
  then show ?thesis
    using run_workers_trace[of env ts "completion_order finish (length ts)" Map.empty w] rw
    by simp
qed

lemma run_trace_extends: "\<exists>rest. trace (snd (run env steps w)) = trace w @ rest"
  using run_trace_prefix[of env steps w "fst (run env steps w)" "snd (run env steps w)"] by auto

lemma pipeline_trace_extends:
  "\<exists>rest. trace (snd (pipeline env finish types ts (radius, fl) w))
      = trace (snd (run env (buffer_stage env radius fl types) w)) @ rest"
proof (cases rule: pipeline_stages[of env radius fl types w finish ts])
  case (buffer_raised e w1)
  then show ?thesis by simp
next
  case (pool_raised w1 e w2)
  with pool_trace[of env finish ts w1] show ?thesis by simp
next
  case (aggregated w1 names w2)
  from pool_trace[of env finish ts w1] aggregated(2) obtain a where "trace w2 = trace w1 @ a"
    by auto
  moreover from run_trace_extends[of env "coverage_aggregate names" w2]
  obtain b where "trace (snd (run env (coverage_aggregate names) w2)) = trace w2 @ b" by auto
  ultimately have "trace (snd (run env (coverage_aggregate names) w2)) = trace w1 @ (a @ b)" by simp
  with aggregated show ?thesis by auto
qed

lemma pipeline_starts_with_buffer:
  "\<exists>rest. trace (snd (pipeline env finish types ts (radius, fl) w))
      = trace w @ Buffer_analysis fl ''facilities_buffer'' (Meters radius) # rest"
proof -
  obtain a where "trace (snd (run env (buffer_stage env radius fl types) w))
      = trace w @ Buffer_analysis fl ''facilities_buffer'' (Meters radius) # a"
    using run_Do_trace[of env "Buffer_analysis fl ''facilities_buffer'' (Meters radius)" _ w]
    unfolding buffer_stage_def by blast
  moreover obtain b where "trace (snd (pipeline env finish types ts (radius, fl) w))
      = trace (snd (run env (buffer_stage env radius fl types) w)) @ b"
    using pipeline_trace_extends by blast
  ultimately have "trace (snd (pipeline env finish types ts (radius, fl) w))
      = trace w @ Buffer_analysis fl ''facilities_buffer'' (Meters radius) # (a @ b)" by simp
  then show ?thesis by blast
qed

lemma buffer_failure_propagates:
  assumes "fst (run env (buffer_stage env radius fl types) w) = Inl e"
  shows "pipeline env finish types ts (radius, fl) w = run env (buffer_stage env radius fl types) w"
proof (cases rule: pipeline_stages[of env radius fl types w finish ts])
  case (buffer_raised e w1)
  then show ?thesis by simp
next
  case (pool_raised w1 e w2)
  with assms show ?thesis by simp
next
  case (aggregated w1 names w2)
  with assms show ?thesis by simp
qed

text \<open>
  Claim C4, as amended. No category is ever recorded as empty or excluded. An error of the
  provider while buffering, selecting or copying a category layer is not recovered: it
  fails the run before any combination is dispatched. When these tools all return, the
  intersection of every combination is dispatched, whatever the feature counts of the
  categories are. The worker does not skip a combination with a missing layer: it asserts,
  in the order of the combination, that each layer file exists, and raises
  \<^verbatim>\<open>AssertionError\<close> naming the first missing one, with nothing intersected or printed.
\<close>

theorem no_category_is_excluded:
  "((\<exists>op\<in>set (operations_of (buffer_stage env radius fl FacilityTypes)). raises env op \<noteq> None) \<longrightarrow>
      (\<exists>m. fst (three_or_above_facilities env finish radius fl w) = Inl (ExecuteError m))
      \<and> (\<forall>ins out join. Intersect_analysis ins out join
            \<notin> set (drop (length (trace w))
                 (trace (snd (three_or_above_facilities env finish radius fl w))))))
   \<and> ((\<forall>op\<in>set (operations_of (buffer_stage env radius fl FacilityTypes)). raises env op = None) \<longrightarrow>
      (\<forall>t\<in>set tasks. intersect_of t
            \<in> set (trace (snd (three_or_above_facilities env finish radius fl w)))))
   \<and> (\<not> layers_exist w (index, comb) \<longrightarrow>
      (\<exists>fac_type. List.find (\<lambda>fac_type. layer_file fac_type \<notin> set (files w)) comb = Some fac_type
         \<and> process_combination env index comb w
             = (Inl (AssertionError (layer_file fac_type)), w)))"
proof (intro conjI impI)
  let ?ops = "operations_of (buffer_stage env radius fl FacilityTypes)"
  let ?b = "run env (buffer_stage env radius fl FacilityTypes) w"
  assume "\<exists>op\<in>set ?ops. raises env op \<noteq> None"
  then obtain op where f: "List.find (\<lambda>op. raises env op \<noteq> None) ?ops = Some op"
    by (cases "List.find (\<lambda>op. raises env op \<noteq> None) ?ops") (auto simp: find_None_iff)
  then have b: "fst ?b = Inl (ExecuteError (the (raises env op)))"
    by (simp add: buffer_stage_fst)
  note p = buffer_failure_propagates[OF b, of finish tasks]
  from b p show "\<exists>m. fst (three_or_above_facilities env finish radius fl w) = Inl (ExecuteError m)"
    by (simp add: three_or_above_fst)
  obtain k where k: "trace (snd ?b) = trace w @ take k ?ops"
    using run_trace_prefix[of env _ w "fst ?b" "snd ?b"] by auto
  show "\<forall>ins out join. Intersect_analysis ins out join
            \<notin> set (drop (length (trace w))
                 (trace (snd (three_or_above_facilities env finish radius fl w))))"
    unfolding three_or_above_world(2) p k
    using buffer_stage_no_intersect[of _ _ _ env radius fl FacilityTypes]
    by (auto dest: in_set_takeD)
next
  let ?ops = "operations_of (buffer_stage env radius fl FacilityTypes)"
  assume a: "\<forall>op\<in>set ?ops. raises env op = None"
  then have "List.find (\<lambda>op. raises env op \<noteq> None) ?ops = None"
    by (simp add: find_None_iff)
  then have b: "fst (run env (buffer_stage env radius fl FacilityTypes) w) = Inr ()"
    by (simp add: buffer_stage_fst)
  have "\<forall>t\<in>set tasks. intersect_of t
      \<in> set (trace (snd (pipeline env finish FacilityTypes tasks (radius, fl) w)))"
  proof (cases rule: pipeline_stages[of env radius fl FacilityTypes w finish tasks])
    case (buffer_raised e w1)
    with b show ?thesis by simp
  next
    case (pool_raised w1 e w2)
    from pool_after_buffer(1)[OF pool_raised(1) map_fst_tasks tasks_sub pool_raised(2)]
    show ?thesis by simp
  next
    case (aggregated w1 names w2)
    note t = pool_after_buffer(4)[OF aggregated(1) map_fst_tasks tasks_sub aggregated(2)]
    obtain c where c: "trace (snd (run env (coverage_aggregate names) w2)) = trace w2 @ c"
      using run_trace_extends by blast
    show ?thesis
    proof
      fix t assume "t \<in> set tasks"
      then obtain i where "i < length tasks" "tasks ! i = t" by (auto simp: in_set_conv_nth)
      then have "intersect_of t \<in> set (map (\<lambda>i. intersect_of (tasks ! i))
          (completion_order finish (length tasks)))"
        by (auto simp: set_completion_order)
      then show "intersect_of t \<in> set (trace (snd (pipeline env finish FacilityTypes tasks (radius, fl) w)))"
        unfolding aggregated(3) c t by simp
    qed
  qed
  then show "\<forall>t\<in>set tasks. intersect_of t
            \<in> set (trace (snd (three_or_above_facilities env finish radius fl w)))"
    by (simp add: three_or_above_world(2))
next
  assume "\<not> layers_exist w (index, comb)"
  then have "\<exists>fac_type\<in>set comb. layer_file fac_type \<notin> set (files w)"
    by (simp add: layers_exist_def list_all_iff)
  then obtain fac_type
    where f: "List.find (\<lambda>fac_type. layer_file fac_type \<notin> set (files w)) comb = Some fac_type"
    by (cases "List.find (\<lambda>fac_type. layer_file fac_type \<notin> set (files w)) comb")
       (auto simp: find_None_iff)
  then have "fac_type_layers w comb = Inl (AssertionError (layer_file fac_type))"
    by (simp add: fac_type_layers_find)
  then have "process_combination env index comb w
      = (Inl (AssertionError (layer_file fac_type)), w)"
    by (simp add: process_combination_def)
  with f show "\<exists>fac_type. List.find (\<lambda>fac_type. layer_file fac_type \<notin> set (files w)) comb = Some fac_type
         \<and> process_combination env index comb w
             = (Inl (AssertionError (layer_file fac_type)), w)"
    by blast
qed

lemma copy_raises_run:
  "fst (run (env_with (copy_raises ''Country Parks''))
         (buffer_stage (env_with (copy_raises ''Country Parks'')) radius fl FacilityTypes) w)
   = Inl (ExecuteError ''ERROR 000210'')"
  by (simp add: buffer_stage_fst operations_of_buffer_stage operations_of_make_fac_type_layer
      FacilityTypes_def env_with_def copy_raises_def layer_file_def replace_special_chars_def
      replace_chr_def)

text \<open>
  Claim C4 fails as stated: when the copy of the layer of one category raises, the run
  fails with that error.
\<close>

theorem failed_layer_copy_fails_the_run:
  "raises (env_with (copy_raises ''Country Parks''))
     (CopyFeatures_management (''facilities_buffer'', ''Facility_Type = '' @ quoted ''Country Parks'')
        ''./shape/Country_Parks_Layer.shp'') = Some ''ERROR 000210''
   \<and> fst (three_or_above_facilities (env_with (copy_raises ''Country Parks'')) (\<lambda>i. i) 500
        ''facilities_list'' start_world) = Inl (ExecuteError ''ERROR 000210'')"
proof -
  have "raises (env_with (copy_raises ''Country Parks''))
     (CopyFeatures_management (''facilities_buffer'', ''Facility_Type = '' @ quoted ''Country Parks'')
        ''./shape/Country_Parks_Layer.shp'') = Some ''ERROR 000210''"
    by (simp add: env_with_def copy_raises_def layer_file_def replace_special_chars_def
      replace_chr_def)
  moreover have "fst (three_or_above_facilities (env_with (copy_raises ''Country Parks'')) (\<lambda>i. i) 500
        ''facilities_list'' start_world) = Inl (ExecuteError ''ERROR 000210'')"
    unfolding three_or_above_fst buffer_failure_propagates[OF copy_raises_run]
    by (rule copy_raises_run)
  ultimately show ?thesis by blast
qed

theorem no_category_is_excluded_witness:
  "(\<exists>m. fst (three_or_above_facilities (env_with (copy_raises ''Country Parks'')) (\<lambda>i. i) 500
        ''facilities_list'' start_world) = Inl (ExecuteError m))
   \<and> feature_count (env_with quiet) (''facilities_buffer'', ''Facility_Type = '' @ quoted ''Country Parks'') = 0
   \<and> intersect_of (1, [''Badminton Courts'', ''Basketball Courts'', ''Fitness Rooms''])
       \<in> set (trace (snd (three_or_above_facilities (env_with quiet) (\<lambda>i. i) 500
        ''facilities_list'' start_world)))
   \<and> process_combination (env_with quiet) 4
        [''Badminton Courts'', ''Country Parks'', ''Fitness Rooms'']
        (start_world\<lparr>files := [''./shape/Badminton_Courts_Layer.shp'']\<rparr>)
       = (Inl (AssertionError ''./shape/Country_Parks_Layer.shp''),
          start_world\<lparr>files := [''./shape/Badminton_Courts_Layer.shp'']\<rparr>)"
proof -
  let ?w = "start_world\<lparr>files := [''./shape/Badminton_Courts_Layer.shp'']\<rparr>"
  let ?comb = "[''Badminton Courts'', ''Country Parks'', ''Fitness Rooms'']"
  note a = no_category_is_excluded[of "env_with (copy_raises ''Country Parks'')" 500
      "''facilities_list''" "\<lambda>i. i" start_world 4 ?comb]
  note b = no_category_is_excluded[of "env_with quiet" 500
      "''facilities_list''" "\<lambda>i. i" start_world 4 ?comb]
  note c = no_category_is_excluded[of "env_with quiet" 500
      "''facilities_list''" "\<lambda>i. i" ?w 4 ?comb]
  have h1: "\<exists>op\<in>set (operations_of (buffer_stage (env_with (copy_raises ''Country Parks'')) 500
      ''facilities_list'' FacilityTypes)). raises (env_with (copy_raises ''Country Parks'')) op \<noteq> None"
    by (simp add: operations_of_buffer_stage operations_of_make_fac_type_layer
      FacilityTypes_def env_with_def copy_raises_def layer_file_def replace_special_chars_def
      replace_chr_def)
  have h2: "\<forall>op\<in>set (operations_of (buffer_stage (env_with quiet) 500
      ''facilities_list'' FacilityTypes)). raises (env_with quiet) op = None"
    by (simp add: env_with_def quiet_def)
  have l: "layer_file ''Badminton Courts'' = ''./shape/Badminton_Courts_Layer.shp''"
      "layer_file ''Country Parks'' = ''./shape/Country_Parks_Layer.shp''"
      "layer_file ''Fitness Rooms'' = ''./shape/Fitness_Rooms_Layer.shp''"
    by (simp_all add: layer_file_def replace_special_chars_def replace_chr_def)
  have h3: "\<not> layers_exist ?w (4, ?comb)"
    by (simp add: layers_exist_def l)
  have h4: "List.find (\<lambda>fac_type. layer_file fac_type \<notin> set (files ?w)) ?comb
      = Some ''Country Parks''"
    by (simp add: l)
  have t: "(1, [''Badminton Courts'', ''Basketball Courts'', ''Fitness Rooms'']) \<in> set tasks"
    by (simp add: tasks_def scheduled_tasks_def FacilityTypes_def eval_nat_numeral enumerate_eq_zip
      del: upt_Suc) (simp add: upt_rec)
  from a h1 have c1: "\<exists>m. fst (three_or_above_facilities (env_with (copy_raises ''Country Parks'')) (\<lambda>i. i) 500
        ''facilities_list'' start_world) = Inl (ExecuteError m)" by blast
  from b h2 t have c2: "intersect_of (1, [''Badminton Courts'', ''Basketball Courts'', ''Fitness Rooms''])
       \<in> set (trace (snd (three_or_above_facilities (env_with quiet) (\<lambda>i. i) 500
        ''facilities_list'' start_world)))" by blast
  from c h3 obtain fac_type where
    f: "List.find (\<lambda>fac_type. layer_file fac_type \<notin> set (files ?w)) ?comb = Some fac_type" and
    p: "process_combination (env_with quiet) 4 ?comb ?w = (Inl (AssertionError (layer_file fac_type)), ?w)"
    by blast
  from f have "fac_type = ''Country Parks''" unfolding h4 by simp
  then have c3: "process_combination (env_with quiet) 4 ?comb ?w
       = (Inl (AssertionError ''./shape/Country_Parks_Layer.shp''), ?w)"
    using p l(2) by (simp only:)
  have c0: "feature_count (env_with quiet) (''facilities_buffer'', ''Facility_Type = '' @ quoted ''Country Parks'') = 0"
    by (simp add: env_with_def)
  from c1 c0 c2 c3 show ?thesis by blast
qed

lemma main_cases:
  "main env finish to_float w =
     (if \<not> path_exists env ''./csv_data/''
      then (Inl (FileNotFoundError (''CSV folder '' @ quoted ''./csv_data/'' @ '' not found.'')),
            w\<lparr>stdout := stdout w @ [''Unexpected error while running main: CSV folder ''
              @ quoted ''./csv_data/'' @ '' not found.'']\<rparr>)
      else (case read_all_csvs (csv_rows env) to_float ''./csv_data/'' of
              Inl e \<Rightarrow> (Inl e, w\<lparr>stdout := stdout w @ [handler_line env ''main'' e w]\<rparr>)
            | Inr sports_data \<Rightarrow>
                if sports_data = []
                then (Inl (ValueError ''No facility data loaded from CSV files.''),
                      w\<lparr>stdout := stdout w @ [''Unexpected error while running main: ''
                        @ ''No facility data loaded from CSV files.'']\<rparr>)
                else exception_handler env ''main''
                       (\<lambda>u. three_or_above_facilities env finish 500 ''facilities_list'') () w))"
  by (simp add: main_def main_body_def exception_handler_def print_line_def Let_def
      split: sum.splits)

lemma main_proceeds:
  assumes "path_exists env ''./csv_data/''"
    and "read_all_csvs (csv_rows env) to_float ''./csv_data/'' = Inr sports_data"
    and "sports_data \<noteq> []"
  shows "fst (main env finish to_float w)
           = fst (three_or_above_facilities env finish 500 ''facilities_list'' w)"
    and "trace (snd (main env finish to_float w))
           = trace (snd (three_or_above_facilities env finish 500 ''facilities_list'' w))"
    and "files (snd (main env finish to_float w))
           = files (snd (three_or_above_facilities env finish 500 ''facilities_list'' w))"
  using assms
  by (simp_all add: main_cases exception_handler_fst exception_handler_world)

text \<open>
  Claim C7, as amended. \<^verbatim>\<open>main\<close> fails before anything is buffered, dispatched or written
  when the CSV folder does not exist (\<^verbatim>\<open>FileNotFoundError\<close>), when reading the CSV files
  raises (a file that is missing or empty, a row with fewer than nine columns, a coordinate
  that is not a number; the exception of the reading is the one raised) and when the files
  hold no facility (\<^verbatim>\<open>ValueError\<close>): the handler prints the error and raises it again, and
  no operation has been performed. In every other case \<^verbatim>\<open>main\<close> runs
  \<^verbatim>\<open>three_or_above_facilities\<close> with the radius 500 on \<^verbatim>\<open>facilities_list\<close>, beginning with
  the buffer; so \<^verbatim>\<open>main\<close> ends with no operation performed in those three cases and in no
  other. The radius is not checked: \<^verbatim>\<open>three_or_above_facilities\<close> starts, for every
  radius, by asking the provider for the buffer of that radius. (The category list and the
  size of the combinations are constants of the source, not inputs.)
\<close>

theorem only_the_csv_inputs_are_checked:
  "(\<not> path_exists env ''./csv_data/'' \<longrightarrow>
      main env finish to_float w =
        (Inl (FileNotFoundError (''CSV folder '' @ quoted ''./csv_data/'' @ '' not found.'')),
         w\<lparr>stdout := stdout w @ [''Unexpected error while running main: CSV folder ''
              @ quoted ''./csv_data/'' @ '' not found.'']\<rparr>))
   \<and> (\<forall>e. path_exists env ''./csv_data/''
        \<and> read_all_csvs (csv_rows env) to_float ''./csv_data/'' = Inl e \<longrightarrow>
      main env finish to_float w =
        (Inl e, w\<lparr>stdout := stdout w @ [handler_line env ''main'' e w]\<rparr>))
   \<and> (path_exists env ''./csv_data/''
        \<and> read_all_csvs (csv_rows env) to_float ''./csv_data/'' = Inr [] \<longrightarrow>
      main env finish to_float w =
        (Inl (ValueError ''No facility data loaded from CSV files.''),
         w\<lparr>stdout := stdout w @ [''Unexpected error while running main: ''
              @ ''No facility data loaded from CSV files.'']\<rparr>))
   \<and> (\<forall>sports_data. path_exists env ''./csv_data/''
        \<and> read_all_csvs (csv_rows env) to_float ''./csv_data/'' = Inr sports_data
        \<and> sports_data \<noteq> [] \<longrightarrow>
      fst (main env finish to_float w)
        = fst (three_or_above_facilities env finish 500 ''facilities_list'' w)
      \<and> trace (snd (main env finish to_float w))
        = trace (snd (three_or_above_facilities env finish 500 ''facilities_list'' w))
      \<and> files (snd (main env finish to_float w))
        = files (snd (three_or_above_facilities env finish 500 ''facilities_list'' w))
      \<and> (\<exists>rest. trace (snd (main env finish to_float w))
            = trace w @ Buffer_analysis ''facilities_list'' ''facilities_buffer'' (Meters 500) # rest))
   \<and> ((trace (snd (main env finish to_float w)) = trace w) =
        (\<not> path_exists env ''./csv_data/''
         \<or> (\<exists>e. read_all_csvs (csv_rows env) to_float ''./csv_data/'' = Inl e)
         \<or> read_all_csvs (csv_rows env) to_float ''./csv_data/'' = Inr []))
   \<and> (\<exists>rest. trace (snd (three_or_above_facilities env finish radius fl w))
         = trace w @ Buffer_analysis fl ''facilities_buffer'' (Meters radius) # rest)"
proof -
  let ?read = "read_all_csvs (csv_rows env) to_float ''./csv_data/''"
  have buffer: "\<exists>rest. trace (snd (three_or_above_facilities env finish r f w))
         = trace w @ Buffer_analysis f ''facilities_buffer'' (Meters r) # rest" for r f
    unfolding three_or_above_world(2) by (rule pipeline_starts_with_buffer)
  have c1: "\<not> path_exists env ''./csv_data/'' \<longrightarrow>
      main env finish to_float w =
        (Inl (FileNotFoundError (''CSV folder '' @ quoted ''./csv_data/'' @ '' not found.'')),
         w\<lparr>stdout := stdout w @ [''Unexpected error while running main: CSV folder ''
              @ quoted ''./csv_data/'' @ '' not found.'']\<rparr>)"
    by (simp add: main_cases)
  have c2: "\<forall>e. path_exists env ''./csv_data/'' \<and> ?read = Inl e \<longrightarrow>
      main env finish to_float w =
        (Inl e, w\<lparr>stdout := stdout w @ [handler_line env ''main'' e w]\<rparr>)"
    by (simp add: main_cases)
  have c3: "path_exists env ''./csv_data/'' \<and> ?read = Inr [] \<longrightarrow>
      main env finish to_float w =
        (Inl (ValueError ''No facility data loaded from CSV files.''),
         w\<lparr>stdout := stdout w @ [''Unexpected error while running main: ''
              @ ''No facility data loaded from CSV files.'']\<rparr>)"
    by (simp add: main_cases)
  have c4: "\<forall>sports_data. path_exists env ''./csv_data/'' \<and> ?read = Inr sports_data
        \<and> sports_data \<noteq> [] \<longrightarrow>
      fst (main env finish to_float w)
        = fst (three_or_above_facilities env finish 500 ''facilities_list'' w)
      \<and> trace (snd (main env finish to_float w))
        = trace (snd (three_or_above_facilities env finish 500 ''facilities_list'' w))
      \<and> files (snd (main env finish to_float w))
        = files (snd (three_or_above_facilities env finish 500 ''facilities_list'' w))
      \<and> (\<exists>rest. trace (snd (main env finish to_float w))
            = trace w @ Buffer_analysis ''facilities_list'' ''facilities_buffer'' (Meters 500) # rest)"
  proof (intro allI impI)
    fix sports_data
    assume a: "path_exists env ''./csv_data/'' \<and> ?read = Inr sports_data \<and> sports_data \<noteq> []"
    then have p: "path_exists env ''./csv_data/''" and r: "?read = Inr sports_data"
      and n: "sports_data \<noteq> []" by simp_all
    note m = main_proceeds[OF p r n, of finish w]
    from buffer[of 500 "''facilities_list''"] m(2)
    have "\<exists>rest. trace (snd (main env finish to_float w))
            = trace w @ Buffer_analysis ''facilities_list'' ''facilities_buffer'' (Meters 500) # rest"
      by simp
    with m show "fst (main env finish to_float w)
        = fst (three_or_above_facilities env finish 500 ''facilities_list'' w)
      \<and> trace (snd (main env finish to_float w))
        = trace (snd (three_or_above_facilities env finish 500 ''facilities_list'' w))
      \<and> files (snd (main env finish to_float w))
        = files (snd (three_or_above_facilities env finish 500 ''facilities_list'' w))
      \<and> (\<exists>rest. trace (snd (main env finish to_float w))
            = trace w @ Buffer_analysis ''facilities_list'' ''facilities_buffer'' (Meters 500) # rest)"
      by blast
  qed
  have c5: "(trace (snd (main env finish to_float w)) = trace w) =
        (\<not> path_exists env ''./csv_data/'' \<or> (\<exists>e. ?read = Inl e) \<or> ?read = Inr [])"
  proof (cases "path_exists env ''./csv_data/''")
    case False
    with c1 show ?thesis by simp
  next
    case True
    show ?thesis
    proof (cases ?read)
      case (Inl e)
      with c2 True show ?thesis by simp
    next
      case (Inr sports_data)
      show ?thesis
      proof (cases "sports_data = []")
        case True
        with c3 Inr \<open>path_exists env ''./csv_data/''\<close> show ?thesis by simp
      next
        case False
        with c4 Inr True obtain rest where "trace (snd (main env finish to_float w))
            = trace w @ Buffer_analysis ''facilities_list'' ''facilities_buffer'' (Meters 500) # rest"
          by blast
        then have "trace (snd (main env finish to_float w)) \<noteq> trace w" by simp
        with Inr False True show ?thesis by simp
      qed
    qed
  qed
  from c1 c2 c3 c4 c5 buffer[of radius fl] show ?thesis by blast
qed

lemma headers_only: "read_all_csvs (\<lambda>p. Some [[''GMID'']]) to_float ''./csv_data/'' = Inr []"
  by (simp add: read_all_csvs_def FileNames_def read_csv_def and_then_def)

lemma missing_csv_file:
  "read_all_csvs (\<lambda>p. None) to_float ''./csv_data/''
     = Inl (FileNotFoundError (''[Errno 2] No such file or directory: ''
              @ quoted ''./csv_data/Badminton_court.csv''))"
  by (simp add: read_all_csvs_def FileNames_def read_csv_def and_then_def path_join_def
      no_such_file_def py_repr_def repr_char_def quoted_def Let_def)

lemma short_row:
  "read_all_csvs (\<lambda>p. Some [[''GMID''], [''1'', ''Badminton Courts'']]) to_float ''./csv_data/''
     = Inl (IndexError ''list index out of range'')"
  by (simp add: read_all_csvs_def FileNames_def read_csv_def and_then_def from_csv_row_def
      item_def)

lemma one_row_each:
  "\<exists>sports_data.
     read_all_csvs (\<lambda>p. Some [[''GMID''],
        [''1'', ''Badminton Courts'', ''A'', ''N.A.'', ''Sha Tin'', ''1'', ''2'', ''3'', ''4'']])
       (\<lambda>s. Some s) ''./csv_data/'' = Inr sports_data \<and> sports_data \<noteq> []"
  by (simp add: read_all_csvs_def FileNames_def read_csv_def and_then_def from_csv_row_def
      item_def float_of_def)

theorem only_the_csv_inputs_are_checked_witness:
  "main ((env_with quiet)\<lparr>path_exists := (\<lambda>p. False)\<rparr>) (\<lambda>i. i) (\<lambda>s. Some s) start_world
     = (Inl (FileNotFoundError (''CSV folder '' @ quoted ''./csv_data/'' @ '' not found.'')),
        start_world\<lparr>stdout := [''Unexpected error while running main: CSV folder ''
              @ quoted ''./csv_data/'' @ '' not found.'']\<rparr>)
   \<and> main (env_with quiet) (\<lambda>i. i) (\<lambda>s. Some s) start_world
     = (Inl (FileNotFoundError (''[Errno 2] No such file or directory: ''
              @ quoted ''./csv_data/Badminton_court.csv'')),
        start_world\<lparr>stdout := [''Unexpected error while running main: ''
              @ ''[Errno 2] No such file or directory: ''
              @ quoted ''./csv_data/Badminton_court.csv'']\<rparr>)
   \<and> main ((env_with quiet)\<lparr>csv_rows := (\<lambda>p. Some [[''GMID''], [''1'', ''Badminton Courts'']])\<rparr>)
        (\<lambda>i. i) (\<lambda>s. Some s) start_world
     = (Inl (IndexError ''list index out of range''),
        start_world\<lparr>stdout := [''Unexpected error while running main: ''
              @ ''list index out of range'']\<rparr>)
   \<and> main ((env_with quiet)\<lparr>csv_rows := (\<lambda>p. Some [[''GMID'']])\<rparr>) (\<lambda>i. i) (\<lambda>s. Some s) start_world
     = (Inl (ValueError ''No facility data loaded from CSV files.''),
        start_world\<lparr>stdout := [''Unexpected error while running main: ''
              @ ''No facility data loaded from CSV files.'']\<rparr>)
   \<and> fst (main ((env_with quiet)\<lparr>csv_rows := (\<lambda>p. Some [[''GMID''],
          [''1'', ''Badminton Courts'', ''A'', ''N.A.'', ''Sha Tin'', ''1'', ''2'', ''3'', ''4'']])\<rparr>)
        (\<lambda>i. i) (\<lambda>s. Some s) start_world) = Inr ()
   \<and> hd (trace (snd (main ((env_with quiet)\<lparr>csv_rows := (\<lambda>p. Some [[''GMID''],
          [''1'', ''Badminton Courts'', ''A'', ''N.A.'', ''Sha Tin'', ''1'', ''2'', ''3'', ''4'']])\<rparr>)
        (\<lambda>i. i) (\<lambda>s. Some s) start_world)))
       = Buffer_analysis ''facilities_list'' ''facilities_buffer'' (Meters 500)"
proof -
  let ?rows = "\<lambda>p :: string. Some [[''GMID''],
          [''1'', ''Badminton Courts'', ''A'', ''N.A.'', ''Sha Tin'', ''1'', ''2'', ''3'', ''4'']]"
  let ?e1 = "(env_with quiet)\<lparr>path_exists := (\<lambda>p. False)\<rparr>"
  let ?e2 = "env_with quiet"
  let ?e3 = "(env_with quiet)\<lparr>csv_rows := (\<lambda>p. Some [[''GMID''], [''1'', ''Badminton Courts'']])\<rparr>"
  let ?e4 = "(env_with quiet)\<lparr>csv_rows := (\<lambda>p. Some [[''GMID'']])\<rparr>"
  let ?e5 = "(env_with quiet)\<lparr>csv_rows := ?rows\<rparr>"
  note t1 = only_the_csv_inputs_are_checked[of ?e1 "\<lambda>i. i" "\<lambda>s. Some s" start_world
      0 "''facilities_list''"]
  note t2 = only_the_csv_inputs_are_checked[of ?e2 "\<lambda>i. i" "\<lambda>s. Some s" start_world
      0 "''facilities_list''"]
  note t3 = only_the_csv_inputs_are_checked[of ?e3 "\<lambda>i. i" "\<lambda>s. Some s" start_world
      0 "''facilities_list''"]
  note t4 = only_the_csv_inputs_are_checked[of ?e4 "\<lambda>i. i" "\<lambda>s. Some s" start_world
      0 "''facilities_list''"]
  note t5 = only_the_csv_inputs_are_checked[of ?e5 "\<lambda>i. i" "\<lambda>s. Some s" start_world
      0 "''facilities_list''"]
  have s: "stdout start_world = []" "trace start_world = []" by (simp_all add: start_world_def)
  have h1: "\<not> path_exists ?e1 ''./csv_data/''" by simp
  have h2: "path_exists ?e2 ''./csv_data/''
        \<and> read_all_csvs (csv_rows ?e2) (\<lambda>s. Some s) ''./csv_data/''
            = Inl (FileNotFoundError (''[Errno 2] No such file or directory: ''
              @ quoted ''./csv_data/Badminton_court.csv''))"
    by (simp add: missing_csv_file env_with_def)
  have h3: "path_exists ?e3 ''./csv_data/''
        \<and> read_all_csvs (csv_rows ?e3) (\<lambda>s. Some s) ''./csv_data/''
            = Inl (IndexError ''list index out of range'')"
    by (simp add: short_row env_with_def)
  have h4: "path_exists ?e4 ''./csv_data/''
        \<and> read_all_csvs (csv_rows ?e4) (\<lambda>s. Some s) ''./csv_data/'' = Inr []"
    by (simp add: headers_only env_with_def)
  obtain sports_data where h5: "path_exists ?e5 ''./csv_data/''
        \<and> read_all_csvs (csv_rows ?e5) (\<lambda>s. Some s) ''./csv_data/'' = Inr sports_data
        \<and> sports_data \<noteq> []"
    using one_row_each by (auto simp: env_with_def)
  from t1 h1 have c1: "main ?e1 (\<lambda>i. i) (\<lambda>s. Some s) start_world
     = (Inl (FileNotFoundError (''CSV folder '' @ quoted ''./csv_data/'' @ '' not found.'')),
        start_world\<lparr>stdout := stdout start_world @ [''Unexpected error while running main: CSV folder ''
              @ quoted ''./csv_data/'' @ '' not found.'']\<rparr>)" by blast
  from t2 h2 have c2: "main ?e2 (\<lambda>i. i) (\<lambda>s. Some s) start_world
     = (Inl (FileNotFoundError (''[Errno 2] No such file or directory: ''
              @ quoted ''./csv_data/Badminton_court.csv'')),
        start_world\<lparr>stdout := stdout start_world @ [handler_line ?e2 ''main''
            (FileNotFoundError (''[Errno 2] No such file or directory: ''
              @ quoted ''./csv_data/Badminton_court.csv'')) start_world]\<rparr>)" by blast
  from t3 h3 have c3: "main ?e3 (\<lambda>i. i) (\<lambda>s. Some s) start_world
     = (Inl (IndexError ''list index out of range''),
        start_world\<lparr>stdout := stdout start_world @ [handler_line ?e3 ''main''
            (IndexError ''list index out of range'') start_world]\<rparr>)" by blast
  from t4 h4 have c4: "main ?e4 (\<lambda>i. i) (\<lambda>s. Some s) start_world
     = (Inl (ValueError ''No facility data loaded from CSV files.''),
        start_world\<lparr>stdout := stdout start_world @ [''Unexpected error while running main: ''
              @ ''No facility data loaded from CSV files.'']\<rparr>)" by blast
  from t5 h5 have c5: "fst (main ?e5 (\<lambda>i. i) (\<lambda>s. Some s) start_world)
        = fst (three_or_above_facilities ?e5 (\<lambda>i. i) 500 ''facilities_list'' start_world)"
    and "\<exists>rest. trace (snd (main ?e5 (\<lambda>i. i) (\<lambda>s. Some s) start_world))
            = trace start_world @ Buffer_analysis ''facilities_list'' ''facilities_buffer'' (Meters 500) # rest"
    by blast+
  then have c6: "hd (trace (snd (main ?e5 (\<lambda>i. i) (\<lambda>s. Some s) start_world)))
       = Buffer_analysis ''facilities_list'' ''facilities_buffer'' (Meters 500)"
    by (auto simp: s)
  have "fst (three_or_above_facilities ?e5 (\<lambda>i. i) 500 ''facilities_list'' start_world) = Inr ()"
    by (rule completes_when_tools_return) (simp_all add: start_world_def env_with_def quiet_def)
  with c5 have c7: "fst (main ?e5 (\<lambda>i. i) (\<lambda>s. Some s) start_world) = Inr ()" by simp
  show ?thesis unfolding c1 c2 c3 c4 c6 c7 s by simp
qed

text \<open>
  Claim C7 fails as stated: called with the radius \<open>0\<close>, the function does not report an
  input error. Its first operation is the buffer of radius \<open>0\<close>, and where the provider's
  tools return it completes normally.
\<close>

theorem zero_radius_is_buffered:
  "fst (three_or_above_facilities (env_with quiet) (\<lambda>i. i) 0 ''facilities_list'' start_world) = Inr ()
   \<and> hd (trace (snd (three_or_above_facilities (env_with quiet) (\<lambda>i. i) 0 ''facilities_list''
        start_world))) = Buffer_analysis ''facilities_list'' ''facilities_buffer'' (Meters 0)"
proof -
  obtain rest where "trace (snd (pipeline (env_with quiet) (\<lambda>i. i) FacilityTypes tasks
      (0, ''facilities_list'') start_world))
      = trace start_world @ Buffer_analysis ''facilities_list'' ''facilities_buffer'' (Meters 0) # rest"
    using pipeline_starts_with_buffer by blast
  then have "hd (trace (snd (three_or_above_facilities (env_with quiet) (\<lambda>i. i) 0 ''facilities_list''
        start_world))) = Buffer_analysis ''facilities_list'' ''facilities_buffer'' (Meters 0)"
    unfolding three_or_above_world(2) by (simp add: start_world_def)
  with quiet_run_completes[of "\<lambda>i. i" 0 "''facilities_list''"] show ?thesis by blast
qed

section \<open>Independence of the order in which the workers finish\<close>




lemma position_nth: "distinct p \<Longrightarrow> i < length p \<Longrightarrow> position p (p ! i) = i"
proof (induction p arbitrary: i)
  case Nil
  then show ?case by simp
next
  case (Cons x p)
  show ?case
  proof (cases i)
    case 0
    then show ?thesis by simp
  next
    case (Suc j)
    with Cons.prems have "p ! j \<in> set p" by simp
    with Cons.prems have "x \<noteq> p ! j" by auto
    with Suc Cons show ?thesis by simp
  qed
qed

lemma map_position: "distinct p \<Longrightarrow> map (position p) p = [0..<length p]"
  by (rule nth_equalityI) (simp_all add: position_nth)

lemma position_inj: "distinct p \<Longrightarrow> a \<in> set p \<Longrightarrow> b \<in> set p \<Longrightarrow> position p a = position p b \<Longrightarrow> a = b"
  by (metis in_set_conv_nth position_nth)

lemma filter_eq_singleton: "distinct xs \<Longrightarrow> k \<in> set xs \<Longrightarrow> filter (\<lambda>x. k = x) xs = [k]"
proof (induction xs)
  case Nil
  then show ?case by simp
next
  case (Cons x xs)
  show ?case
  proof (cases "k = x")
    case True
    with Cons.prems have "filter (\<lambda>y. k = y) xs = []" by (auto simp: filter_empty_conv)
    with True show ?thesis by simp
  next
    case False
    with Cons show ?thesis by simp
  qed
qed

text \<open>Every order of the tasks is the completion order for some finishing times.\<close>

lemma every_order_is_a_completion_order:
  assumes "mset p = mset [0..<n]"
  shows "completion_order (position p) n = p"
  unfolding completion_order_def
proof (rule properties_for_sort_key)
  show "mset p = mset [0..<n]" by (rule assms)
  have d: "distinct p" using assms by (metis distinct_upt mset_eq_imp_distinct_iff)
  have s: "set p = set [0..<n]" using assms by (rule mset_eq_setD)
  show "sorted (map (position p) p)" by (simp add: map_position d)
  fix k assume k: "k \<in> set p"
  have "filter (\<lambda>x. position p k = position p x) p = filter (\<lambda>x. k = x) p"
    by (rule filter_cong) (auto dest: position_inj[OF d k])
  moreover have "filter (\<lambda>x. position p k = position p x) [0..<n] = filter (\<lambda>x. k = x) [0..<n]"
    using s by (intro filter_cong) (auto dest: position_inj[OF d k])
  moreover have "filter (\<lambda>x. k = x) p = [k]"
    using d k by (rule filter_eq_singleton)
  moreover have "filter (\<lambda>x. k = x) [0..<n] = [k]"
    using k s by (intro filter_eq_singleton) simp_all
  ultimately show "filter (\<lambda>x. position p k = position p x) p
      = filter (\<lambda>x. position p k = position p x) [0..<n]" by simp
qed




section \<open>Removal of the scratch artifacts\<close>









lemma module_init_makes_shape_dir: "shape_dir (module_init env w)"
  by (simp add: module_init_def Let_def perform_def split: option.splits)

end
